theory Spec2Isabelle
  imports Main "HOL-Library.Multiset" "HOL-Library.Product_Lexorder"
begin

section \<open>Platform: what the two widgets consume\<close>

subsection \<open>JavaScript \<open>Set<string>\<close>\<close>

text \<open>
  A JavaScript \<open>Set\<close> iterates in insertion order and holds every member once. It is a
  list without duplicates, oldest member first: \<open>add\<close> appends a member that is not yet
  there, \<open>delete\<close> takes the member out, \<open>new Set(iterable)\<close> adds the elements in turn.
\<close>

definition Set_has :: "string \<Rightarrow> string list \<Rightarrow> bool" where
  "Set_has x s = (x \<in> set s)"

definition Set_add :: "string \<Rightarrow> string list \<Rightarrow> string list" where
  "Set_add x s = (if Set_has x s then s else s @ [x])"

definition Set_delete :: "string \<Rightarrow> string list \<Rightarrow> string list" where
  "Set_delete x s = filter (\<lambda>y. y \<noteq> x) s"

definition new_Set :: "string list \<Rightarrow> string list" where
  "new_Set xs = fold Set_add xs []"

text \<open>
  Modelled from the spec: \<open>values\<close> of \<open>vs/base/common/map\<close>, which is not among the
  sources. The spec has the hidden set "serialized as a list": the members, in the
  set's iteration order.
\<close>

definition values_of :: "string list \<Rightarrow> string list" where
  "values_of s = s"

subsection \<open>\<open>Array.prototype.sort\<close>\<close>

text \<open>
  \<open>Array.prototype.sort\<close> belongs to the engine that runs the code, and the language
  fixes its result only in part. For a consistent comparator the result holds the same
  elements and is sorted under the comparator. Where the comparator returns 0, the
  order is the engine's: ECMAScript before the 2019 edition says that the sort "is not
  necessarily stable", and engines of that time did not keep such elements in order on
  longer arrays; since the 2019 edition the sort must be stable. So the engine's sort is
  a value of the type of all functions that meet the contract, and the view-model
  carries the engine it runs on. A comparator is consistent when it orders the
  elements as a total preorder: of two elements one does not follow the other, a tie
  is a tie in both directions, and "does not follow" is transitive.
\<close>

definition consistent_comparator :: "('a \<Rightarrow> 'a \<Rightarrow> int) \<Rightarrow> bool" where
  "consistent_comparator cmp =
     ((\<forall>a b. cmp a b \<le> 0 \<or> cmp b a \<le> 0)
      \<and> (\<forall>a b. cmp a b = 0 \<longrightarrow> cmp b a = 0)
      \<and> (\<forall>a b c. cmp a b \<le> 0 \<and> cmp b c \<le> 0 \<longrightarrow> cmp a c \<le> 0))"

definition sort_contract :: "(('a \<Rightarrow> 'a \<Rightarrow> int) \<Rightarrow> 'a list \<Rightarrow> 'a list) \<Rightarrow> bool" where
  "sort_contract f =
     (\<forall>cmp xs. consistent_comparator cmp \<longrightarrow>
        mset (f cmp xs) = mset xs \<and> sorted_wrt (\<lambda>x y. cmp x y \<le> 0) (f cmp xs))"

text \<open>
  Sorting by insertion, from the last element to the first. An element goes in front
  of the first one that it must precede; \<open>before_ties\<close> says whether it also goes in
  front of one that it ties with. With \<open>before_ties\<close> the sort is stable, without it
  elements that tie come out in reverse order. Both meet the contract.
\<close>

fun insort_cmp :: "bool \<Rightarrow> ('a \<Rightarrow> 'a \<Rightarrow> int) \<Rightarrow> 'a \<Rightarrow> 'a list \<Rightarrow> 'a list" where
  "insort_cmp before_ties cmp x [] = [x]"
| "insort_cmp before_ties cmp x (y # ys) =
     (if cmp x y < 0 \<or> (before_ties \<and> cmp x y = 0) then x # y # ys
      else y # insort_cmp before_ties cmp x ys)"

definition insertion_sort :: "bool \<Rightarrow> ('a \<Rightarrow> 'a \<Rightarrow> int) \<Rightarrow> 'a list \<Rightarrow> 'a list" where
  "insertion_sort before_ties cmp xs = foldr (insort_cmp before_ties cmp) xs []"

typedef 'a sort_engine = "{f :: ('a \<Rightarrow> 'a \<Rightarrow> int) \<Rightarrow> 'a list \<Rightarrow> 'a list. sort_contract f}"
proof
  have "mset (insertion_sort True cmp xs) = mset xs
      \<and> sorted_wrt (\<lambda>x y. cmp x y \<le> 0) (insertion_sort True cmp xs)"
    if c: "consistent_comparator cmp" for cmp :: "'a \<Rightarrow> 'a \<Rightarrow> int" and xs
  proof -
    have total: "cmp a b \<le> 0 \<or> cmp b a \<le> 0" for a b
      using c unfolding consistent_comparator_def by blast
    have trans: "cmp a b \<le> 0 \<Longrightarrow> cmp b d \<le> 0 \<Longrightarrow> cmp a d \<le> 0" for a b d
      using c unfolding consistent_comparator_def by blast
    have m: "mset (insort_cmp True cmp x ys) = add_mset x (mset ys)" for x ys
      by (induction ys) simp_all
    have st: "set (insort_cmp True cmp x ys) = insert x (set ys)" for x ys
      by (induction ys) auto
    have s: "sorted_wrt (\<lambda>x y. cmp x y \<le> 0) ys
        \<Longrightarrow> sorted_wrt (\<lambda>x y. cmp x y \<le> 0) (insort_cmp True cmp x ys)" for x ys
    proof (induction ys)
      case Nil
      show ?case by simp
    next
      case (Cons y ys)
      from Cons.prems have below: "\<forall>z \<in> set ys. cmp y z \<le> 0"
        and tl: "sorted_wrt (\<lambda>x y. cmp x y \<le> 0) ys"
        by simp_all
      show ?case
      proof (cases "cmp x y \<le> 0")
        case True
        have "\<forall>z \<in> set ys. cmp x z \<le> 0"
          using below trans[OF True] by blast
        with True Cons.prems show ?thesis by auto
      next
        case False
        then have "cmp y x \<le> 0" using total[of x y] by blast
        then have "\<forall>z \<in> set (insort_cmp True cmp x ys). cmp y z \<le> 0"
          using below by (simp add: st)
        with False Cons.IH[OF tl] show ?thesis by auto
      qed
    qed
    show ?thesis
      unfolding insertion_sort_def by (induction xs) (simp_all add: m s)
  qed
  then show "insertion_sort True \<in> {f :: ('a \<Rightarrow> 'a \<Rightarrow> int) \<Rightarrow> 'a list \<Rightarrow> 'a list. sort_contract f}"
    by (simp add: sort_contract_def)
qed

definition Array_sort :: "'a sort_engine \<Rightarrow> ('a \<Rightarrow> 'a \<Rightarrow> int) \<Rightarrow> 'a list \<Rightarrow> 'a list" where
  "Array_sort eng cmp xs = Rep_sort_engine eng cmp xs"

definition stable_engine :: "'a sort_engine" where
  "stable_engine = Abs_sort_engine (insertion_sort True)"


subsection \<open>\<open>JSON.stringify\<close> on an array of strings\<close>

text \<open>
  \<open>JSON.stringify\<close> of a string array: the quoted members, separated by commas, in
  brackets. Quoting (ECMAScript \<open>QuoteJSONString\<close>) escapes the double quote, the
  backslash and the control characters below U+0020. A \<open>char\<close> stands for a code unit
  below 256.
\<close>

definition hex_digit :: "nat \<Rightarrow> char" where
  "hex_digit n = ''0123456789abcdef'' ! (n mod 16)"

definition QuoteJSONChar :: "char \<Rightarrow> string" where
  "QuoteJSONChar c =
     (if c = CHR 0x08 then [CHR 0x5C, CHR ''b'']
      else if c = CHR 0x09 then [CHR 0x5C, CHR ''t'']
      else if c = CHR 0x0A then [CHR 0x5C, CHR ''n'']
      else if c = CHR 0x0C then [CHR 0x5C, CHR ''f'']
      else if c = CHR 0x0D then [CHR 0x5C, CHR ''r'']
      else if c = CHR 0x22 then [CHR 0x5C, CHR 0x22]
      else if c = CHR 0x5C then [CHR 0x5C, CHR 0x5C]
      else if (of_char c :: nat) < 0x20
        then [CHR 0x5C, CHR ''u'', CHR ''0'', CHR ''0'',
              hex_digit (of_char c div 16), hex_digit (of_char c)]
      else [c])"

definition QuoteJSONString :: "string \<Rightarrow> string" where
  "QuoteJSONString s = [CHR 0x22] @ concat (map QuoteJSONChar s) @ [CHR 0x22]"

fun join_comma :: "string list \<Rightarrow> string" where
  "join_comma [] = []"
| "join_comma [s] = s"
| "join_comma (s # t # ss) = s @ '','' @ join_comma (t # ss)"

definition JSON_stringify :: "string list \<Rightarrow> string" where
  "JSON_stringify xs = ''['' @ join_comma (map QuoteJSONString xs) @ '']''"

subsection \<open>Storage service\<close>

text \<open>
  Modelled from the spec: the storage service (\<open>vs/platform/storage/common/storage\<close>), an
  external collaborator of which the sources hold only the calls. It is a "persistent
  key-value storage": \<open>get\<close> reads the string stored under a key and scope (or nothing),
  \<open>store\<close> writes one, \<open>remove\<close> deletes the key. Every write is also recorded, in order,
  so that "no write happened" can be told from "the same value was written".
\<close>

datatype StorageScope = GLOBAL | WORKSPACE

datatype storage_write =
    Stored string string StorageScope
  | Removed string StorageScope

record storage =
  items :: "string \<times> StorageScope \<rightharpoonup> string"
  writes :: "storage_write list"

definition storage_get :: "string \<Rightarrow> StorageScope \<Rightarrow> storage \<Rightarrow> string option" where
  "storage_get key scope st = items st (key, scope)"

definition storage_store :: "string \<Rightarrow> string \<Rightarrow> StorageScope \<Rightarrow> storage \<Rightarrow> storage" where
  "storage_store key val scope st =
     st\<lparr>items := (items st)((key, scope) \<mapsto> val),
        writes := writes st @ [Stored key val scope]\<rparr>"

definition storage_remove :: "string \<Rightarrow> StorageScope \<Rightarrow> storage \<Rightarrow> storage" where
  "storage_remove key scope st =
     st\<lparr>items := (items st)((key, scope) := None),
        writes := writes st @ [Removed key scope]\<rparr>"

record IWorkspaceStorageChangeEvent =
  key :: string
  scope :: StorageScope

subsection \<open>DOM elements\<close>

text \<open>
  Modelled from the spec: \<open>hide\<close>, \<open>show\<close>, \<open>addClass\<close> and \<open>removeClasses\<close> of
  \<open>vs/base/browser/dom\<close>, which is not among the sources. An \<open>HTMLElement\<close> is a
  reference, a natural number here. Of an element the view-model changes whether it is
  displayed ("Use CSS to show/hide item container") and its CSS classes. The calls of
  \<open>hide\<close> and \<open>show\<close> are recorded in order, so that an element that was not touched can
  be told from one that was set to the state it already had.
\<close>

type_synonym HTMLElement = nat

datatype dom_call = Hide HTMLElement | Show HTMLElement

record dom =
  displayNone :: "HTMLElement set"
  classList :: "HTMLElement \<Rightarrow> string set"
  calls :: "dom_call list"

definition dom_hide :: "HTMLElement \<Rightarrow> dom \<Rightarrow> dom" where
  "dom_hide el d = d\<lparr>displayNone := insert el (displayNone d), calls := calls d @ [Hide el]\<rparr>"

definition dom_show :: "HTMLElement \<Rightarrow> dom \<Rightarrow> dom" where
  "dom_show el d = d\<lparr>displayNone := displayNone d - {el}, calls := calls d @ [Show el]\<rparr>"

definition addClass :: "HTMLElement \<Rightarrow> string \<Rightarrow> dom \<Rightarrow> dom" where
  "addClass el c d = d\<lparr>classList := (classList d)(el := insert c (classList d el))\<rparr>"

definition removeClasses :: "HTMLElement \<Rightarrow> string list \<Rightarrow> dom \<Rightarrow> dom" where
  "removeClasses el cs d = d\<lparr>classList := (classList d)(el := classList d el - set cs)\<rparr>"

section \<open>Status bar: the view-model\<close>

datatype StatusbarAlignment = LEFT | RIGHT

text \<open>
  \<open>IStatusbarViewModelEntry\<close>. The fields \<open>id\<close> and \<open>name\<close> are \<open>entryId\<close> and
  \<open>entryName\<close> here. A priority is a JavaScript number that the spec takes to be an
  integer. An entry object is identified with its value: the part gives every entry a
  container element of its own (\<open>doCreateStatusItem\<close>), so two entry objects differ in
  their container.
\<close>

record IStatusbarViewModelEntry =
  entryId :: string
  entryName :: string
  alignment :: StatusbarAlignment
  priority :: int
  container :: HTMLElement

record StatusbarViewModel =
  entries :: "IStatusbarViewModelEntry list"
  hidden :: "string list"
  storageService :: storage
  document :: dom
  engine :: "IStatusbarViewModelEntry sort_engine"

definition HIDDEN_ENTRIES_KEY :: string where
  "HIDDEN_ENTRIES_KEY = ''workbench.statusbar.hidden''"

text \<open>
  \<open>restoreState\<close>. \<open>JSON.parse\<close> is a parameter, \<open>parse\<close>: \<open>parse raw\<close> is \<open>None\<close> where
  \<open>new Set(JSON.parse(raw))\<close> throws (the source catches and ignores it), and the elements
  of the parsed array otherwise. The second argument is the field \<open>hidden\<close> as the method
  finds it: \<open>None\<close> in the constructor, where it is not yet assigned. An empty string
  is falsy, so it is treated as no value.
\<close>

definition restoreState ::
  "(string \<Rightarrow> string list option) \<Rightarrow> storage \<Rightarrow> string list option \<Rightarrow> string list" where
  "restoreState parse st h =
     (let h1 = (case storage_get HIDDEN_ENTRIES_KEY GLOBAL st of
                  None \<Rightarrow> h
                | Some hiddenRaw \<Rightarrow>
                    if hiddenRaw = [] then h
                    else (case parse hiddenRaw of
                            Some hiddenArray \<Rightarrow> Some (new_Set hiddenArray)
                          | None \<Rightarrow> h))
      in case h1 of None \<Rightarrow> [] | Some s \<Rightarrow> s)"

definition new_StatusbarViewModel ::
  "IStatusbarViewModelEntry sort_engine \<Rightarrow> (string \<Rightarrow> string list option) \<Rightarrow> storage \<Rightarrow> dom
     \<Rightarrow> StatusbarViewModel" where
  "new_StatusbarViewModel eng parse st d =
     \<lparr>entries = [], hidden = restoreState parse st None, storageService = st, document = d,
      engine = eng\<rparr>"

definition isHidden :: "string \<Rightarrow> StatusbarViewModel \<Rightarrow> bool" where
  "isHidden i vm = Set_has i (hidden vm)"

definition getEntries :: "StatusbarAlignment \<Rightarrow> StatusbarViewModel \<Rightarrow> IStatusbarViewModelEntry list" where
  "getEntries a vm = filter (\<lambda>entry. alignment entry = a) (entries vm)"

definition findEntry :: "HTMLElement \<Rightarrow> StatusbarViewModel \<Rightarrow> IStatusbarViewModelEntry option" where
  "findEntry el vm = find (\<lambda>entry. container entry = el) (entries vm)"

definition doMarkFirstLastVisibleStatusbarItem ::
  "IStatusbarViewModelEntry list \<Rightarrow> StatusbarViewModel \<Rightarrow> StatusbarViewModel" where
  "doMarkFirstLastVisibleStatusbarItem es vm =
     (let d1 = fold (\<lambda>entry. removeClasses (container entry)
                       [''first-visible-item'', ''last-visible-item'']) es (document vm);
          firstVisibleItem = find (\<lambda>entry. \<not> isHidden (entryId entry) vm) es;
          lastVisibleItem = find (\<lambda>entry. \<not> isHidden (entryId entry) vm) (rev es);
          d2 = (case firstVisibleItem of
                  Some entry \<Rightarrow> addClass (container entry) ''first-visible-item'' d1
                | None \<Rightarrow> d1);
          d3 = (case lastVisibleItem of
                  Some entry \<Rightarrow> addClass (container entry) ''last-visible-item'' d2
                | None \<Rightarrow> d2)
      in vm\<lparr>document := d3\<rparr>)"

definition markFirstLastVisibleEntry :: "StatusbarViewModel \<Rightarrow> StatusbarViewModel" where
  "markFirstLastVisibleEntry vm =
     (let vm1 = doMarkFirstLastVisibleStatusbarItem (getEntries LEFT vm) vm
      in doMarkFirstLastVisibleStatusbarItem (getEntries RIGHT vm1) vm1)"

text \<open>The overloaded \<open>updateVisibility\<close>: by entry, and by identifier.\<close>

definition updateVisibility_entry ::
  "IStatusbarViewModelEntry \<Rightarrow> StatusbarViewModel \<Rightarrow> StatusbarViewModel" where
  "updateVisibility_entry entry vm =
     markFirstLastVisibleEntry
       (if isHidden (entryId entry) vm
        then vm\<lparr>document := dom_hide (container entry) (document vm)\<rparr>
        else vm\<lparr>document := dom_show (container entry) (document vm)\<rparr>)"

fun updateVisibility_loop ::
  "string \<Rightarrow> IStatusbarViewModelEntry list \<Rightarrow> StatusbarViewModel \<Rightarrow> StatusbarViewModel" where
  "updateVisibility_loop i [] vm = vm"
| "updateVisibility_loop i (entry # es) vm =
     updateVisibility_loop i es
       (if entryId entry \<noteq> i then vm else updateVisibility_entry entry vm)"

definition updateVisibility_id :: "string \<Rightarrow> StatusbarViewModel \<Rightarrow> StatusbarViewModel" where
  "updateVisibility_id i vm = updateVisibility_loop i (entries vm) vm"

definition saveState :: "StatusbarViewModel \<Rightarrow> StatusbarViewModel" where
  "saveState vm =
     (if length (hidden vm) > 0
      then vm\<lparr>storageService :=
                storage_store HIDDEN_ENTRIES_KEY (JSON_stringify (values_of (hidden vm))) GLOBAL
                  (storageService vm)\<rparr>
      else vm\<lparr>storageService := storage_remove HIDDEN_ENTRIES_KEY GLOBAL (storageService vm)\<rparr>)"

definition compareEntries :: "IStatusbarViewModelEntry \<Rightarrow> IStatusbarViewModelEntry \<Rightarrow> int" where
  "compareEntries entryA entryB =
     (if alignment entryA = alignment entryB then priority entryB - priority entryA
      else if alignment entryA = LEFT then - 1
      else if alignment entryB = LEFT then 1
      else 0)"

definition sort_entries :: "StatusbarViewModel \<Rightarrow> StatusbarViewModel" where
  "sort_entries vm = vm\<lparr>entries := Array_sort (engine vm) compareEntries (entries vm)\<rparr>"

text \<open>
  \<open>add\<close> returns a disposable that calls \<open>remove\<close> on the entry; disposing it is
  \<open>remove\<close> here. \<open>indexOf\<close> finds the first position of the entry, \<open>splice\<close> cuts it out.
\<close>

definition add :: "IStatusbarViewModelEntry \<Rightarrow> StatusbarViewModel \<Rightarrow> StatusbarViewModel" where
  "add entry vm =
     markFirstLastVisibleEntry
       (sort_entries
          (updateVisibility_entry entry (vm\<lparr>entries := entries vm @ [entry]\<rparr>)))"

definition remove :: "IStatusbarViewModelEntry \<Rightarrow> StatusbarViewModel \<Rightarrow> StatusbarViewModel" where
  "remove entry vm =
     (if entry \<in> set (entries vm)
      then markFirstLastVisibleEntry (vm\<lparr>entries := remove1 entry (entries vm)\<rparr>)
      else vm)"

definition hide :: "string \<Rightarrow> StatusbarViewModel \<Rightarrow> StatusbarViewModel" where
  "hide i vm =
     (if \<not> Set_has i (hidden vm)
      then saveState (updateVisibility_id i (vm\<lparr>hidden := Set_add i (hidden vm)\<rparr>))
      else vm)"

text \<open>\<open>show\<close> of the view-model; the name itself is a keyword of the proof language.\<close>

definition show_vm :: "string \<Rightarrow> StatusbarViewModel \<Rightarrow> StatusbarViewModel" where
  "show_vm i vm =
     (if Set_has i (hidden vm)
      then saveState (updateVisibility_id i (vm\<lparr>hidden := Set_delete i (hidden vm)\<rparr>))
      else vm)"

text \<open>
  \<open>onDidStorageChange\<close>. The two \<open>forEach\<close> loops collect the identifiers that left the
  hidden set and those that entered it; the loop over the entries updates the
  visibility of an identifier at its first entry and takes it out of \<open>changed\<close>.
\<close>

definition changed_ids :: "string list \<Rightarrow> string list \<Rightarrow> string list" where
  "changed_ids currentlyHidden nowHidden =
     (let changed1 = fold (\<lambda>i changed. if \<not> Set_has i nowHidden then Set_add i changed else changed)
                       currentlyHidden [];
          changed2 = fold (\<lambda>i changed. if \<not> Set_has i currentlyHidden then Set_add i changed else changed)
                       nowHidden changed1
      in changed2)"

fun update_changed ::
  "IStatusbarViewModelEntry list \<Rightarrow> string list \<Rightarrow> StatusbarViewModel \<Rightarrow> StatusbarViewModel" where
  "update_changed [] changed vm = vm"
| "update_changed (entry # es) changed vm =
     (if Set_has (entryId entry) changed
      then update_changed es (Set_delete (entryId entry) changed)
             (updateVisibility_id (entryId entry) vm)
      else update_changed es changed vm)"

definition onDidStorageChange ::
  "(string \<Rightarrow> string list option) \<Rightarrow> IWorkspaceStorageChangeEvent \<Rightarrow> StatusbarViewModel
     \<Rightarrow> StatusbarViewModel" where
  "onDidStorageChange parse event vm =
     (if key event = HIDDEN_ENTRIES_KEY \<and> scope event = GLOBAL
      then (let currentlyHidden = hidden vm;
                vm1 = vm\<lparr>hidden := restoreState parse (storageService vm) (Some [])\<rparr>;
                changed = changed_ids currentlyHidden (hidden vm1)
            in if length changed > 0
               then update_changed (entries vm1) changed vm1
               else vm1)
      else vm)"

section \<open>Histories of the view-model\<close>

text \<open>
  What can happen to a view-model: an entry is added, an added entry is disposed of, an
  identifier is hidden or shown, or the storage is written from outside (the new value
  of the key, or its removal) and the change event for the key fires.
\<close>

datatype vm_op =
    Add IStatusbarViewModelEntry
  | Dispose IStatusbarViewModelEntry
  | HideId string
  | ShowId string
  | ExternalWrite "string option"

definition external_write :: "string option \<Rightarrow> storage \<Rightarrow> storage" where
  "external_write v st = st\<lparr>items := (items st)((HIDDEN_ENTRIES_KEY, GLOBAL) := v)\<rparr>"

fun apply_op :: "(string \<Rightarrow> string list option) \<Rightarrow> vm_op \<Rightarrow> StatusbarViewModel \<Rightarrow> StatusbarViewModel" where
  "apply_op parse (Add entry) vm = add entry vm"
| "apply_op parse (Dispose entry) vm = remove entry vm"
| "apply_op parse (HideId i) vm = hide i vm"
| "apply_op parse (ShowId i) vm = show_vm i vm"
| "apply_op parse (ExternalWrite v) vm =
     onDidStorageChange parse \<lparr>key = HIDDEN_ENTRIES_KEY, scope = GLOBAL\<rparr>
       (vm\<lparr>storageService := external_write v (storageService vm)\<rparr>)"

definition run :: "(string \<Rightarrow> string list option) \<Rightarrow> vm_op list \<Rightarrow> StatusbarViewModel \<Rightarrow> StatusbarViewModel" where
  "run parse ops vm = fold (apply_op parse) ops vm"


definition sort_rank :: "IStatusbarViewModelEntry \<Rightarrow> nat \<times> int" where
  "sort_rank e = (if alignment e = LEFT then 0 else 1, - priority e)"

section \<open>Status bar: the part\<close>

text \<open>
  \<open>IStatusbarEntry\<close> is declared in \<open>vs/platform/statusbar/common/statusbar\<close>, which is
  not among the sources; of its fields the part reads the text, the command and the
  beak flag (and colours and a tooltip, which only reach the rendering).
\<close>

record IStatusbarEntry =
  entryText :: string
  command :: "string option"
  showBeak :: bool

text \<open>
  An accessor is a pair of closures. The one that \<open>doAddPendingEntry\<close> returns holds the
  pending-entry object, here by its reference; the one that \<open>doAddEntry\<close> returns holds
  the view-model entry and, in it, the item container.
\<close>

datatype IStatusbarEntryAccessor =
    PendingAccessor nat
  | EntryAccessor IStatusbarViewModelEntry

record IPendingStatusbarEntry =
  pendingId :: string
  pendingName :: string
  pendingEntry :: IStatusbarEntry
  pendingAlignment :: StatusbarAlignment
  pendingPriority :: int
  accessor :: "IStatusbarEntryAccessor option"

text \<open>
  The part. Pending-entry objects are mutable and shared between the queue and the
  accessors, so they live in a store, \<open>pendingObjects\<close>, and the queue \<open>pendingEntries\<close>
  holds references; \<open>nextRef\<close> is the next reference that an object creation takes,
  \<open>nextElement\<close> the element that \<open>document.createElement\<close> returns next. \<open>rendered\<close> is
  what the \<open>StatusbarEntryItem\<close> of a container shows. The order of the children of the
  status bar element is written by \<open>appendOneStatusbarEntry\<close> and
  \<open>appendAllStatusbarEntries\<close> and read by nothing in the part; it is not part of this
  state.
\<close>

record StatusbarPart =
  element :: "HTMLElement option"
  pendingEntries :: "nat list"
  pendingObjects :: "nat \<Rightarrow> IPendingStatusbarEntry"
  nextRef :: nat
  viewModel :: StatusbarViewModel
  nextElement :: HTMLElement
  rendered :: "HTMLElement \<rightharpoonup> IStatusbarEntry"

text \<open>A descriptor of the status bar registry: \<open>id\<close>, \<open>name\<close>, \<open>alignment\<close>, \<open>priority\<close>.\<close>

record IStatusbarItemDescriptor =
  itemId :: string
  itemName :: string
  itemAlignment :: StatusbarAlignment
  itemPriority :: int

definition new_StatusbarPart ::
  "IStatusbarViewModelEntry sort_engine \<Rightarrow> (string \<Rightarrow> string list option) \<Rightarrow> storage \<Rightarrow> dom
     \<Rightarrow> HTMLElement \<Rightarrow> StatusbarPart" where
  "new_StatusbarPart eng parse st d fresh =
     \<lparr>element = None, pendingEntries = [],
      pendingObjects = (\<lambda>_. \<lparr>pendingId = [], pendingName = [],
                              pendingEntry = \<lparr>entryText = [], command = None, showBeak = False\<rparr>,
                              pendingAlignment = LEFT, pendingPriority = 0, accessor = None\<rparr>),
      nextRef = 0, viewModel = new_StatusbarViewModel eng parse st d,
      nextElement = fresh, rendered = Map.empty\<rparr>"

definition on_document :: "(dom \<Rightarrow> dom) \<Rightarrow> StatusbarPart \<Rightarrow> StatusbarPart" where
  "on_document f p = p\<lparr>viewModel := (viewModel p)\<lparr>document := f (document (viewModel p))\<rparr>\<rparr>"

definition doCreateStatusItem ::
  "string \<Rightarrow> string \<Rightarrow> StatusbarAlignment \<Rightarrow> int \<Rightarrow> string list \<Rightarrow> StatusbarPart
     \<Rightarrow> HTMLElement \<times> StatusbarPart" where
  "doCreateStatusItem i n a pr extraClasses p =
     (let itemContainer = nextElement p;
          p1 = p\<lparr>nextElement := Suc (nextElement p)\<rparr>;
          p2 = on_document (addClass itemContainer ''statusbar-item'') p1;
          p3 = on_document (fold (addClass itemContainer) extraClasses) p2;
          p4 = (if a = RIGHT then on_document (addClass itemContainer ''right'') p3
                else on_document (addClass itemContainer ''left'') p3)
      in (itemContainer, p4))"

definition doAddPendingEntry ::
  "IStatusbarEntry \<Rightarrow> string \<Rightarrow> string \<Rightarrow> StatusbarAlignment \<Rightarrow> int \<Rightarrow> StatusbarPart
     \<Rightarrow> IStatusbarEntryAccessor \<times> StatusbarPart" where
  "doAddPendingEntry entry i n a pr p =
     (let r = nextRef p;
          pending = \<lparr>pendingId = i, pendingName = n, pendingEntry = entry,
                     pendingAlignment = a, pendingPriority = pr, accessor = None\<rparr>
      in (PendingAccessor r,
          p\<lparr>pendingObjects := (pendingObjects p)(r := pending),
            nextRef := Suc r,
            pendingEntries := pendingEntries p @ [r]\<rparr>))"

definition doAddEntry ::
  "IStatusbarEntry \<Rightarrow> string \<Rightarrow> string \<Rightarrow> StatusbarAlignment \<Rightarrow> int \<Rightarrow> StatusbarPart
     \<Rightarrow> IStatusbarEntryAccessor \<times> StatusbarPart" where
  "doAddEntry entry i n a pr p =
     (case doCreateStatusItem i n a pr
             (''statusbar-entry'' # (if showBeak entry then [''has-beak''] else [])) p of
        (itemContainer, p1) \<Rightarrow>
          (let p2 = p1\<lparr>rendered := (rendered p1)(itemContainer \<mapsto> entry)\<rparr>;
               viewModelEntry = \<lparr>entryId = i, entryName = n, alignment = a, priority = pr,
                                 container = itemContainer\<rparr>
           in (EntryAccessor viewModelEntry,
               p2\<lparr>viewModel := add viewModelEntry (viewModel p2)\<rparr>)))"

definition addEntry ::
  "IStatusbarEntry \<Rightarrow> string \<Rightarrow> string \<Rightarrow> StatusbarAlignment \<Rightarrow> int \<Rightarrow> StatusbarPart
     \<Rightarrow> IStatusbarEntryAccessor \<times> StatusbarPart" where
  "addEntry entry i n a pr p =
     (if element p = None then doAddPendingEntry entry i n a pr p
      else doAddEntry entry i n a pr p)"

text \<open>The two closures of the accessor that \<open>doAddEntry\<close> returns.\<close>

definition entry_update :: "IStatusbarViewModelEntry \<Rightarrow> IStatusbarEntry \<Rightarrow> StatusbarPart \<Rightarrow> StatusbarPart" where
  "entry_update vme entry p =
     (let p1 = (if showBeak entry
                then on_document (addClass (container vme) ''has-beak'') p
                else on_document (removeClasses (container vme) [''has-beak'']) p)
      in p1\<lparr>rendered := (rendered p1)(container vme \<mapsto> entry)\<rparr>)"

definition entry_dispose :: "IStatusbarViewModelEntry \<Rightarrow> StatusbarPart \<Rightarrow> StatusbarPart" where
  "entry_dispose vme p =
     (let p1 = p\<lparr>viewModel := remove vme (viewModel p)\<rparr>
      in p1\<lparr>rendered := (rendered p1)(container vme := None)\<rparr>)"

text \<open>
  \<open>update\<close> and \<open>dispose\<close> of an accessor. The closures of \<open>doAddPendingEntry\<close> forward to
  the accessor stored in the pending entry once there is one; the forwarding is a call
  through the store, which nothing in the types bounds, so the result is optional.
\<close>

partial_function (option) update_accessor ::
  "IStatusbarEntryAccessor \<Rightarrow> IStatusbarEntry \<Rightarrow> StatusbarPart \<Rightarrow> StatusbarPart option" where
  "update_accessor acc entry p =
     (case acc of
        EntryAccessor vme \<Rightarrow> Some (entry_update vme entry p)
      | PendingAccessor r \<Rightarrow>
          (case accessor (pendingObjects p r) of
             Some inner \<Rightarrow> update_accessor inner entry p
           | None \<Rightarrow>
               Some (p\<lparr>pendingObjects :=
                         (pendingObjects p)(r := (pendingObjects p r)\<lparr>pendingEntry := entry\<rparr>)\<rparr>)))"

partial_function (option) dispose_accessor ::
  "IStatusbarEntryAccessor \<Rightarrow> StatusbarPart \<Rightarrow> StatusbarPart option" where
  "dispose_accessor acc p =
     (case acc of
        EntryAccessor vme \<Rightarrow> Some (entry_dispose vme p)
      | PendingAccessor r \<Rightarrow>
          (case accessor (pendingObjects p r) of
             Some inner \<Rightarrow> dispose_accessor inner p
           | None \<Rightarrow>
               Some (p\<lparr>pendingEntries := filter (\<lambda>entry. entry \<noteq> r) (pendingEntries p)\<rparr>)))"

definition updateEntryVisibility :: "string \<Rightarrow> bool \<Rightarrow> StatusbarPart \<Rightarrow> StatusbarPart" where
  "updateEntryVisibility i visible p =
     (if visible then p\<lparr>viewModel := show_vm i (viewModel p)\<rparr>
      else p\<lparr>viewModel := hide i (viewModel p)\<rparr>)"

text \<open>
  \<open>createInitialStatusbarEntries\<close>: first the items of the registry, then the pending
  entries. The loop over the queue runs while the queue is not empty and calls
  \<open>addEntry\<close>, so it is a partial function: \<open>None\<close> stands for a loop that does not end.
\<close>

fun create_registry_items :: "IStatusbarItemDescriptor list \<Rightarrow> StatusbarPart \<Rightarrow> StatusbarPart" where
  "create_registry_items [] p = p"
| "create_registry_items (item # rest) p =
     (case doCreateStatusItem (itemId item) (itemName item) (itemAlignment item) (itemPriority item) [] p of
        (itemContainer, p1) \<Rightarrow>
          create_registry_items rest
            (p1\<lparr>viewModel :=
                  add \<lparr>entryId = itemId item, entryName = itemName item,
                       alignment = itemAlignment item, priority = itemPriority item,
                       container = itemContainer\<rparr> (viewModel p1)\<rparr>))"

definition fill_pending :: "nat \<Rightarrow> StatusbarPart \<Rightarrow> StatusbarPart" where
  "fill_pending r p =
     (let pending = pendingObjects p r
      in case addEntry (pendingEntry pending) (pendingId pending) (pendingName pending)
                (pendingAlignment pending) (pendingPriority pending) p of
           (acc, p1) \<Rightarrow>
             p1\<lparr>pendingObjects :=
                  (pendingObjects p1)(r := (pendingObjects p1 r)\<lparr>accessor := Some acc\<rparr>)\<rparr>)"

partial_function (option) fill_pending_entries :: "StatusbarPart \<Rightarrow> StatusbarPart option" where
  "fill_pending_entries p =
     (case pendingEntries p of
        [] \<Rightarrow> Some p
      | r # rest \<Rightarrow> fill_pending_entries (fill_pending r (p\<lparr>pendingEntries := rest\<rparr>)))"

definition createInitialStatusbarEntries ::
  "IStatusbarItemDescriptor list \<Rightarrow> StatusbarPart \<Rightarrow> StatusbarPart option" where
  "createInitialStatusbarEntries registry_items p =
     fill_pending_entries (create_registry_items registry_items p)"

definition createContentArea ::
  "IStatusbarItemDescriptor list \<Rightarrow> HTMLElement \<Rightarrow> StatusbarPart \<Rightarrow> StatusbarPart option" where
  "createContentArea registry_items parent p =
     createInitialStatusbarEntries registry_items (p\<lparr>element := Some parent\<rparr>)"

subsection \<open>Context menu\<close>

datatype action =
    HideStatusbarEntryAction string
  | Separator
  | ToggleStatusbarEntryVisibilityAction string string bool
  | ToggleStatusbarVisibilityAction string

text \<open>
  The first loop of \<open>getContextMenuActions\<close> walks from the target of the event along
  \<open>parentElement\<close>; the chain of these elements, target first, is the argument here.
\<close>

fun entry_under_mouse :: "HTMLElement list \<Rightarrow> StatusbarViewModel \<Rightarrow> IStatusbarViewModelEntry option" where
  "entry_under_mouse [] vm = None"
| "entry_under_mouse (el # chain) vm =
     (case findEntry el vm of
        Some entry \<Rightarrow> Some entry
      | None \<Rightarrow> entry_under_mouse chain vm)"

text \<open>
  The loop over the entries. \<open>handledEntries\<close> is created empty and only read: the loop
  body has no \<open>handledEntries.add\<close>, so the set is the same in every iteration.
\<close>

fun toggle_actions ::
  "IStatusbarViewModelEntry list \<Rightarrow> string list \<Rightarrow> StatusbarViewModel \<Rightarrow> action list" where
  "toggle_actions [] handledEntries vm = []"
| "toggle_actions (entry # es) handledEntries vm =
     (if \<not> Set_has (entryId entry) handledEntries
      then [ToggleStatusbarEntryVisibilityAction (entryId entry) (entryName entry)
              (\<not> isHidden (entryId entry) vm)]
      else [])
     @ toggle_actions es handledEntries vm"

definition getContextMenuActions :: "HTMLElement list \<Rightarrow> StatusbarViewModel \<Rightarrow> action list" where
  "getContextMenuActions chain vm =
     (case entry_under_mouse chain vm of
        Some statusEntryUnderMouse \<Rightarrow> [HideStatusbarEntryAction (entryId statusEntryUnderMouse), Separator]
      | None \<Rightarrow> [])
     @ toggle_actions (entries vm) (new_Set []) vm
     @ [Separator, ToggleStatusbarVisibilityAction ''Hide Status Bar'']"

definition toggle_ids :: "action list \<Rightarrow> string list" where
  "toggle_ids acts =
     concat (map (\<lambda>a. case a of ToggleStatusbarEntryVisibilityAction i _ _ \<Rightarrow> [i] | _ \<Rightarrow> []) acts)"

section \<open>Marker navigation widget\<close>

datatype MarkerSeverity = Hint | Info | Warning | Error

record IRelatedInformation =
  relatedResource :: string
  relatedMessage :: string
  relatedStartLineNumber :: int
  relatedStartColumn :: int

text \<open>
  \<open>IMarker\<close> is declared in \<open>vs/platform/markers/common/markers\<close>, which is not among
  the sources; these are the fields that the widget reads. \<open>source\<close>, \<open>code\<close> and
  \<open>relatedInformation\<close> may be missing.
\<close>

record IMarker =
  severity :: MarkerSeverity
  message :: string
  source :: "string option"
  code :: "string option"
  relatedInformation :: "IRelatedInformation list option"
  startLineNumber :: int
  startColumn :: int
  endLineNumber :: int
  endColumn :: int

text \<open>
  \<open>message.split(/\r\n|\r|\n/g)\<close>: the pieces between line breaks, where a carriage
  return followed by a line feed is one break. A string without a break is one piece,
  also the empty string.
\<close>

fun split_lines :: "string \<Rightarrow> string list" where
  "split_lines [] = [[]]"
| "split_lines [c] = (if c = CHR 0x0D \<or> c = CHR 0x0A then [[], []] else [[c]])"
| "split_lines (c # d # cs) =
     (if c = CHR 0x0D \<and> d = CHR 0x0A then [] # split_lines cs
      else if c = CHR 0x0D \<or> c = CHR 0x0A then [] # split_lines (d # cs)
      else (case split_lines (d # cs) of
              l # ls \<Rightarrow> (c # l) # ls
            | [] \<Rightarrow> [[c]]))"

text \<open>
  Modelled from the spec: \<open>isNonEmptyArray\<close> of \<open>vs/base/common/arrays\<close>, which is not
  among the sources. The spec adds the separator line "if any related information
  exists": the array is there and has an element.
\<close>

definition isNonEmptyArray :: "'a list option \<Rightarrow> bool" where
  "isNonEmptyArray obj = (case obj of Some xs \<Rightarrow> xs \<noteq> [] | None \<Rightarrow> False)"

text \<open>
  \<open>MessageWidget\<close>: the two cached numbers. What \<open>update\<close> writes into the DOM and the
  scroll dimensions, which are floating-point pixels, are not part of the state here.
\<close>

record MessageWidget =
  lines :: nat
  longestLineLength :: nat

definition new_MessageWidget :: MessageWidget where
  "new_MessageWidget = \<lparr>lines = 0, longestLineLength = 0\<rparr>"

definition MessageWidget_update :: "IMarker \<Rightarrow> MessageWidget \<Rightarrow> MessageWidget" where
  "MessageWidget_update marker w =
     (let ls = split_lines (message marker);
          w1 = w\<lparr>lines := length ls, longestLineLength := 0\<rparr>;
          w2 = fold (\<lambda>line v. v\<lparr>longestLineLength := max (length line) (longestLineLength v)\<rparr>) ls w1
      in if isNonEmptyArray (relatedInformation marker)
         then fold (\<lambda>related v. v\<lparr>lines := lines v + 1\<rparr>)
                (case relatedInformation marker of Some rs \<Rightarrow> rs | None \<Rightarrow> [])
                (w2\<lparr>lines := lines w2 + 1\<rparr>)
         else w2)"

definition getHeightInLines :: "MessageWidget \<Rightarrow> nat" where
  "getHeightInLines w = min 17 (lines w)"

record Position =
  lineNumber :: int
  column :: int

datatype title_detail = Problems int int | Problem int int

datatype js_exception = ErrorObject string

text \<open>
  The widget: the message, the severity, the stale mark, and, of what the base class
  and the editor keep, where the overlay is shown and with what height, the detail of
  the title and whether the overlay has the focus. Colours, the icon and the scrolling
  of the editor are outside this state.
\<close>

record MarkerNavigationWidget =
  messageWidget :: MessageWidget
  widgetSeverity :: MarkerSeverity
  stale :: bool
  shownAt :: "(Position \<times> int) option"
  titleDetail :: "title_detail option"
  focused :: bool

definition new_MarkerNavigationWidget :: MarkerNavigationWidget where
  "new_MarkerNavigationWidget =
     \<lparr>messageWidget = new_MessageWidget, widgetSeverity = Warning, stale = False,
      shownAt = None, titleDetail = None, focused = False\<rparr>"

definition computeRequiredHeight :: "MarkerNavigationWidget \<Rightarrow> nat" where
  "computeRequiredHeight w = 3 + getHeightInLines (messageWidget w)"

text \<open>
  Modelled from the spec: \<open>show\<close> of the base class \<open>PeekViewWidget\<close>
  (\<open>vs/editor/contrib/referenceSearch/peekViewWidget\<close>), which is not among the sources.
  The spec has the widget as "an overlay anchored to a text position" with a "required
  on-screen height": showing it records the position and the height.
\<close>

definition PeekViewWidget_show :: "Position \<Rightarrow> int \<Rightarrow> MarkerNavigationWidget \<Rightarrow> MarkerNavigationWidget" where
  "PeekViewWidget_show wh heightInLines w = w\<lparr>shownAt := Some (wh, heightInLines)\<rparr>"

text \<open>
  Modelled from the spec: \<open>containsPosition\<close> and \<open>getStartPosition\<close> of
  \<open>vs/editor/common/core/range\<close>, which is not among the sources. The spec places the
  overlay "at the editor's current position if it already lies inside the marker's
  range, else at the range's start".
\<close>

definition containsPosition :: "IMarker \<Rightarrow> Position \<Rightarrow> bool" where
  "containsPosition rng pos =
     (\<not> (lineNumber pos < startLineNumber rng \<or> lineNumber pos > endLineNumber rng)
      \<and> \<not> (lineNumber pos = startLineNumber rng \<and> column pos < startColumn rng)
      \<and> \<not> (lineNumber pos = endLineNumber rng \<and> column pos > endColumn rng))"

definition getStartPosition :: "IMarker \<Rightarrow> Position" where
  "getStartPosition rng = \<lparr>lineNumber = startLineNumber rng, column = startColumn rng\<rparr>"

text \<open>
  What \<open>showAtMarker\<close> asks the editor: its position, whether it has a model, and whether
  accessibility support is not disabled.
\<close>

record editor_state =
  editorPosition :: "Position option"
  hasModel :: bool
  accessibilityEnabled :: bool

text \<open>\<open>show\<close> of the marker widget; the name itself is a keyword of the proof language.\<close>

definition MarkerNavigationWidget_show ::
  "Position \<Rightarrow> int \<Rightarrow> MarkerNavigationWidget \<Rightarrow> js_exception + MarkerNavigationWidget" where
  "MarkerNavigationWidget_show wh heightInLines w = Inl (ErrorObject ''call showAtMarker'')"

definition showAtMarker ::
  "editor_state \<Rightarrow> IMarker \<Rightarrow> int \<Rightarrow> int \<Rightarrow> MarkerNavigationWidget
     \<Rightarrow> js_exception + MarkerNavigationWidget" where
  "showAtMarker editor marker markerIdx markerCount w =
     (let w1 = w\<lparr>stale := False\<rparr>;
          w2 = w1\<lparr>messageWidget := MessageWidget_update marker (messageWidget w1)\<rparr>;
          w3 = w2\<lparr>widgetSeverity := severity marker\<rparr>;
          pos = (case editorPosition editor of
                   Some p \<Rightarrow> if containsPosition marker p then p else getStartPosition marker
                 | None \<Rightarrow> getStartPosition marker);
          w4 = PeekViewWidget_show pos (int (computeRequiredHeight w3)) w3;
          w5 = (if hasModel editor
                then w4\<lparr>titleDetail := Some (if markerCount > 1 then Problems markerIdx markerCount
                                              else Problem markerIdx markerCount)\<rparr>
                else w4);
          w6 = (if accessibilityEnabled editor then w5\<lparr>focused := True\<rparr> else w5)
      in Inr w6)"

definition updateMarker :: "IMarker \<Rightarrow> MarkerNavigationWidget \<Rightarrow> MarkerNavigationWidget" where
  "updateMarker marker w =
     (w\<lparr>stale := False\<rparr>)\<lparr>messageWidget := MessageWidget_update marker (messageWidget w)\<rparr>"

text \<open>The number of message lines as the spec counts it.\<close>

definition numberOfMessageLines :: "IMarker \<Rightarrow> nat" where
  "numberOfMessageLines marker =
     length (split_lines (message marker))
     + (case relatedInformation marker of
          None \<Rightarrow> 0
        | Some rs \<Rightarrow> (if rs = [] then 0 else 1) + length rs)"

section \<open>Notions that the statements use\<close>


text \<open>What \<open>saveState\<close> leaves under the key for a hidden set: nothing for the empty set.\<close>

definition persisted_hidden :: "string list \<Rightarrow> string option" where
  "persisted_hidden h = (if h = [] then None else Some (JSON_stringify h))"

text \<open>The call that \<open>updateVisibility\<close> makes for an entry under a hidden set.\<close>

definition visibility_call :: "string list \<Rightarrow> IStatusbarViewModelEntry \<Rightarrow> dom_call" where
  "visibility_call h e = (if Set_has (entryId e) h then Hide (container e) else Show (container e))"

text \<open>Entries, two of them with the same identifier, and states for the examples.\<close>

definition entry_a1 :: IStatusbarViewModelEntry where
  "entry_a1 = \<lparr>entryId = ''a'', entryName = ''A'', alignment = LEFT, priority = 1, container = 1\<rparr>"

definition entry_b :: IStatusbarViewModelEntry where
  "entry_b = \<lparr>entryId = ''b'', entryName = ''B'', alignment = LEFT, priority = 0, container = 2\<rparr>"

definition entry_c :: IStatusbarViewModelEntry where
  "entry_c = \<lparr>entryId = ''c'', entryName = ''C'', alignment = RIGHT, priority = 7, container = 3\<rparr>"

definition entry_a2 :: IStatusbarViewModelEntry where
  "entry_a2 = \<lparr>entryId = ''a'', entryName = ''A'', alignment = RIGHT, priority = 5, container = 4\<rparr>"





definition empty_storage :: storage where
  "empty_storage = \<lparr>items = Map.empty, writes = []\<rparr>"

definition empty_dom :: dom where
  "empty_dom = \<lparr>displayNone = {}, classList = (\<lambda>_. {}), calls = []\<rparr>"

definition example_vm :: StatusbarViewModel where
  "example_vm = \<lparr>entries = [entry_a1, entry_b, entry_c, entry_a2], hidden = [],
                  storageService = empty_storage, document = empty_dom,
                  engine = stable_engine\<rparr>"

definition hidden_a_state :: StatusbarViewModel where
  "hidden_a_state = hide ''a'' example_vm"

text \<open>
  A view-model that has \<open>a\<close> and \<open>b\<close> hidden while the storage already holds the list of
  \<open>b\<close> and \<open>c\<close>, and \<open>JSON.parse\<close> on that one document.
\<close>

definition parse_b_c :: "string \<Rightarrow> string list option" where
  "parse_b_c raw = (if raw = JSON_stringify [''b'', ''c''] then Some [''b'', ''c''] else None)"

definition reconcile_state :: StatusbarViewModel where
  "reconcile_state =
     \<lparr>entries = [entry_a1, entry_b, entry_c, entry_a2], hidden = [''a'', ''b''],
      storageService = \<lparr>items = [(HIDDEN_ENTRIES_KEY, GLOBAL) \<mapsto> JSON_stringify [''b'', ''c'']],
                        writes = []\<rparr>,
      document = \<lparr>displayNone = {1, 2, 4}, classList = (\<lambda>_. {}), calls = []\<rparr>,
      engine = stable_engine\<rparr>"

text \<open>A marker with a message of one line, and one whose message has twenty lines.\<close>

definition one_line_marker :: IMarker where
  "one_line_marker =
     \<lparr>severity = Error, message = ''unused variable'', source = Some ''ts'', code = None,
      relatedInformation = None,
      startLineNumber = 3, startColumn = 1, endLineNumber = 3, endColumn = 9\<rparr>"

definition twenty_line_marker :: IMarker where
  "twenty_line_marker =
     \<lparr>severity = Warning,
      message = [CHR ''a'', CHR 0x0A, CHR ''b'', CHR 0x0A, CHR ''c'', CHR 0x0A, CHR ''d'', CHR 0x0A,
                 CHR ''e'', CHR 0x0D, CHR 0x0A, CHR ''f'', CHR 0x0A, CHR ''g'', CHR 0x0A, CHR ''h'',
                 CHR 0x0A, CHR ''i'', CHR 0x0A, CHR ''j'', CHR 0x0D, CHR ''k'', CHR 0x0A, CHR ''l'',
                 CHR 0x0A, CHR ''m'', CHR 0x0A, CHR ''n'', CHR 0x0A, CHR ''o'', CHR 0x0A, CHR ''p'',
                 CHR 0x0A, CHR ''q'', CHR 0x0A, CHR ''r'', CHR 0x0A, CHR ''s'', CHR 0x0A, CHR ''t''],
      source = None, code = None, relatedInformation = None,
      startLineNumber = 1, startColumn = 1, endLineNumber = 1, endColumn = 2\<rparr>"

text \<open>
  The loop of \<open>createInitialStatusbarEntries\<close> over a queue that the body does not
  change: the pending entries are filled in, first to last.
\<close>

fun fill_all :: "nat list \<Rightarrow> StatusbarPart \<Rightarrow> StatusbarPart" where
  "fill_all [] p = p"
| "fill_all (r # rest) p = fill_all rest (fill_pending r p)"

text \<open>A part that has no container yet, with one pending entry.\<close>

definition example_entry :: IStatusbarEntry where
  "example_entry = \<lparr>entryText = ''$(sync) 3'', command = Some ''git.sync'', showBeak = False\<rparr>"

definition example_part :: StatusbarPart where
  "example_part =
     snd (addEntry example_entry ''git.sync'' ''Synchronize'' LEFT 10
            (new_StatusbarPart stable_engine (\<lambda>_. None) empty_storage empty_dom 1))"

definition example_registry :: "IStatusbarItemDescriptor list" where
  "example_registry =
     [\<lparr>itemId = ''status.editor.mode'', itemName = ''Language Mode'',
       itemAlignment = RIGHT, itemPriority = 100\<rparr>]"

section \<open>Properties of the view-model\<close>

subsection \<open>What each operation leaves alone\<close>


lemma doMark_frame [simp]:
  "entries (doMarkFirstLastVisibleStatusbarItem es vm) = entries vm"
  "hidden (doMarkFirstLastVisibleStatusbarItem es vm) = hidden vm"
  "storageService (doMarkFirstLastVisibleStatusbarItem es vm) = storageService vm"
  "engine (doMarkFirstLastVisibleStatusbarItem es vm) = engine vm"
  by (simp_all add: doMarkFirstLastVisibleStatusbarItem_def Let_def)

lemma removeClasses_fold_frame [simp]:
  "displayNone (fold (\<lambda>entry. removeClasses (container entry) cs) es d) = displayNone d"
  "calls (fold (\<lambda>entry. removeClasses (container entry) cs) es d) = calls d"
  by (induction es arbitrary: d) (simp_all add: removeClasses_def)

lemma addClass_frame [simp]:
  "displayNone (addClass el c d) = displayNone d"
  "calls (addClass el c d) = calls d"
  by (simp_all add: addClass_def)

lemma doMark_dom [simp]:
  "displayNone (document (doMarkFirstLastVisibleStatusbarItem es vm)) = displayNone (document vm)"
  "calls (document (doMarkFirstLastVisibleStatusbarItem es vm)) = calls (document vm)"
  by (simp_all add: doMarkFirstLastVisibleStatusbarItem_def Let_def split: option.splits)

lemma mark_frame [simp]:
  "entries (markFirstLastVisibleEntry vm) = entries vm"
  "hidden (markFirstLastVisibleEntry vm) = hidden vm"
  "storageService (markFirstLastVisibleEntry vm) = storageService vm"
  "engine (markFirstLastVisibleEntry vm) = engine vm"
  "displayNone (document (markFirstLastVisibleEntry vm)) = displayNone (document vm)"
  "calls (document (markFirstLastVisibleEntry vm)) = calls (document vm)"
  by (simp_all add: markFirstLastVisibleEntry_def Let_def)

lemma updateVisibility_entry_frame [simp]:
  "entries (updateVisibility_entry e vm) = entries vm"
  "hidden (updateVisibility_entry e vm) = hidden vm"
  "storageService (updateVisibility_entry e vm) = storageService vm"
  "engine (updateVisibility_entry e vm) = engine vm"
  by (simp_all add: updateVisibility_entry_def)

lemma isHidden_updateVisibility_entry [simp]:
  "isHidden i (updateVisibility_entry e vm) = isHidden i vm"
  by (simp add: isHidden_def)

lemma updateVisibility_entry_dom:
  "displayNone (document (updateVisibility_entry e vm)) =
     (if isHidden (entryId e) vm then insert (container e) (displayNone (document vm))
      else displayNone (document vm) - {container e})"
  "calls (document (updateVisibility_entry e vm)) =
     calls (document vm) @ [if isHidden (entryId e) vm then Hide (container e) else Show (container e)]"
  by (simp_all add: updateVisibility_entry_def dom_hide_def dom_show_def)

lemma updateVisibility_loop_frame [simp]:
  "entries (updateVisibility_loop i es vm) = entries vm"
  "hidden (updateVisibility_loop i es vm) = hidden vm"
  "storageService (updateVisibility_loop i es vm) = storageService vm"
  "engine (updateVisibility_loop i es vm) = engine vm"
  by (induction es arbitrary: vm) simp_all

lemma updateVisibility_loop_displayNone:
  "displayNone (document (updateVisibility_loop i es vm)) =
     (if isHidden i vm then displayNone (document vm) \<union> container ` {e \<in> set es. entryId e = i}
      else displayNone (document vm) - container ` {e \<in> set es. entryId e = i})"
  by (induction es arbitrary: vm) (auto simp: updateVisibility_entry_dom)

lemma updateVisibility_loop_calls:
  "calls (document (updateVisibility_loop i es vm)) =
     calls (document vm) @ map (\<lambda>e. if isHidden i vm then Hide (container e) else Show (container e))
        (filter (\<lambda>e. entryId e = i) es)"
  by (induction es arbitrary: vm) (auto simp: updateVisibility_entry_dom)

lemma updateVisibility_id_frame [simp]:
  "entries (updateVisibility_id i vm) = entries vm"
  "hidden (updateVisibility_id i vm) = hidden vm"
  "storageService (updateVisibility_id i vm) = storageService vm"
  "engine (updateVisibility_id i vm) = engine vm"
  by (simp_all add: updateVisibility_id_def)

lemma saveState_frame [simp]:
  "entries (saveState vm) = entries vm"
  "hidden (saveState vm) = hidden vm"
  "document (saveState vm) = document vm"
  "engine (saveState vm) = engine vm"
  by (simp_all add: saveState_def)

lemma update_changed_entries [simp]:
  "entries (update_changed es changed vm) = entries vm"
  "engine (update_changed es changed vm) = engine vm"
  by (induction es arbitrary: changed vm) simp_all

lemma hide_entries [simp]:
  "entries (hide i vm) = entries vm"
  "engine (hide i vm) = engine vm"
  by (simp_all add: hide_def)

lemma show_vm_entries [simp]:
  "entries (show_vm i vm) = entries vm"
  "engine (show_vm i vm) = engine vm"
  by (simp_all add: show_vm_def)

lemma onDidStorageChange_entries [simp]:
  "entries (onDidStorageChange parse ev vm) = entries vm"
  "engine (onDidStorageChange parse ev vm) = engine vm"
  by (simp_all add: onDidStorageChange_def Let_def)

subsection \<open>The order of the entries\<close>


lemma compareEntries_rank: "compareEntries a b \<le> 0 \<longleftrightarrow> sort_rank a \<le> sort_rank b"
  by (cases "alignment a"; cases "alignment b")
     (auto simp: compareEntries_def sort_rank_def)

text \<open>
  The comparator of \<open>sort\<close> is consistent: it compares the ranks of the entries, which
  are linearly ordered. So a stable sort has one result, whatever the algorithm.
\<close>

lemma compareEntries_consistent:
  "compareEntries a b \<le> 0 \<or> compareEntries b a \<le> 0"
  "compareEntries a b \<le> 0 \<Longrightarrow> compareEntries b c \<le> 0 \<Longrightarrow> compareEntries a c \<le> 0"
  "(compareEntries a b = 0) = (sort_rank a = sort_rank b)"
proof -
  show "compareEntries a b \<le> 0 \<or> compareEntries b a \<le> 0"
    unfolding compareEntries_rank by (rule linear)
  show "compareEntries a b \<le> 0 \<Longrightarrow> compareEntries b c \<le> 0 \<Longrightarrow> compareEntries a c \<le> 0"
    unfolding compareEntries_rank by (rule order_trans)
  show "(compareEntries a b = 0) = (sort_rank a = sort_rank b)"
    by (cases "alignment a"; cases "alignment b") (auto simp: compareEntries_def sort_rank_def)
qed

lemma consistent_compareEntries: "consistent_comparator compareEntries"
  unfolding consistent_comparator_def
  using compareEntries_consistent(1) compareEntries_consistent(2) compareEntries_consistent(3)
  by metis

text \<open>What every engine gives for the comparator of the view-model.\<close>

lemma Array_sort_compareEntries:
  "mset (Array_sort eng compareEntries xs) = mset xs"
  "sorted (map sort_rank (Array_sort eng compareEntries xs))"
proof -
  have "sort_contract (Rep_sort_engine eng)"
    using Rep_sort_engine[of eng] by simp
  then have c: "mset (Array_sort eng compareEntries xs) = mset xs
      \<and> sorted_wrt (\<lambda>x y. compareEntries x y \<le> 0) (Array_sort eng compareEntries xs)"
    using consistent_compareEntries unfolding sort_contract_def Array_sort_def by blast
  then show "mset (Array_sort eng compareEntries xs) = mset xs" by simp
  from c show "sorted (map sort_rank (Array_sort eng compareEntries xs))"
    by (simp add: sorted_map compareEntries_rank)
qed














lemma entries_add: "entries (add e vm) = Array_sort (engine vm) compareEntries (entries vm @ [e])"
  by (simp add: add_def sort_entries_def)

lemma engine_add [simp]: "engine (add e vm) = engine vm"
  by (simp add: add_def sort_entries_def)


lemma engine_remove [simp]: "engine (remove e vm) = engine vm"
  by (simp add: remove_def)

lemma engine_apply_op [simp]: "engine (apply_op parse op vm) = engine vm"
  by (cases op) simp_all

lemma run_Nil [simp]: "run parse [] vm = vm"
  by (simp add: run_def)

lemma run_Cons [simp]: "run parse (op # ops) vm = run parse ops (apply_op parse op vm)"
  by (simp add: run_def)









subsection \<open>Hiding, showing and the storage\<close>


lemma updateVisibility_id_displayNone:
  "displayNone (document (updateVisibility_id i vm)) =
     (if isHidden i vm then displayNone (document vm) \<union> container ` {e \<in> set (entries vm). entryId e = i}
      else displayNone (document vm) - container ` {e \<in> set (entries vm). entryId e = i})"
  by (simp add: updateVisibility_id_def updateVisibility_loop_displayNone)

lemma updateVisibility_id_calls:
  "calls (document (updateVisibility_id i vm)) =
     calls (document vm) @ map (\<lambda>e. if isHidden i vm then Hide (container e) else Show (container e))
        (filter (\<lambda>e. entryId e = i) (entries vm))"
  by (simp add: updateVisibility_id_def updateVisibility_loop_calls)

lemma saveState_items:
  "items (storageService (saveState vm)) =
     (items (storageService vm))((HIDDEN_ENTRIES_KEY, GLOBAL) := persisted_hidden (hidden vm))"
  by (simp add: saveState_def persisted_hidden_def storage_store_def storage_remove_def values_of_def)

lemma saveState_writes:
  "writes (storageService (saveState vm)) =
     writes (storageService vm) @
       [if hidden vm = [] then Removed HIDDEN_ENTRIES_KEY GLOBAL
        else Stored HIDDEN_ENTRIES_KEY (JSON_stringify (hidden vm)) GLOBAL]"
  by (simp add: saveState_def storage_store_def storage_remove_def values_of_def)

lemma Set_delete_add: "\<not> Set_has i h \<Longrightarrow> Set_delete i (Set_add i h) = h"
  by (auto simp: Set_delete_def Set_add_def Set_has_def filter_id_conv)

lemma Set_has_add [simp]: "Set_has i (Set_add i h)"
  by (simp add: Set_add_def Set_has_def)

lemma Set_has_delete [simp]: "\<not> Set_has i (Set_delete i h)"
  by (simp add: Set_delete_def Set_has_def)

lemma hidden_hide: "hidden (hide i vm) = (if Set_has i (hidden vm) then hidden vm else Set_add i (hidden vm))"
  by (simp add: hide_def)

lemma hidden_show_vm: "hidden (show_vm i vm) = (if Set_has i (hidden vm) then Set_delete i (hidden vm) else hidden vm)"
  by (simp add: show_vm_def)

lemma displayNone_hide:
  "displayNone (document (hide i vm)) =
     (if Set_has i (hidden vm) then displayNone (document vm)
      else displayNone (document vm) \<union> container ` {e \<in> set (entries vm). entryId e = i})"
  by (simp add: hide_def updateVisibility_id_displayNone isHidden_def)

lemma displayNone_show_vm:
  "displayNone (document (show_vm i vm)) =
     (if Set_has i (hidden vm)
      then displayNone (document vm) - container ` {e \<in> set (entries vm). entryId e = i}
      else displayNone (document vm))"
  by (simp add: show_vm_def updateVisibility_id_displayNone isHidden_def)

lemma items_hide:
  "items (storageService (hide i vm)) =
     (if Set_has i (hidden vm) then items (storageService vm)
      else (items (storageService vm))((HIDDEN_ENTRIES_KEY, GLOBAL) := persisted_hidden (Set_add i (hidden vm))))"
  by (simp add: hide_def saveState_items)

lemma items_show_vm:
  "items (storageService (show_vm i vm)) =
     (if Set_has i (hidden vm)
      then (items (storageService vm))((HIDDEN_ENTRIES_KEY, GLOBAL) := persisted_hidden (Set_delete i (hidden vm)))
      else items (storageService vm))"
  by (simp add: show_vm_def saveState_items)

text \<open>
  Claim C10. \<open>hide\<close> of an identifier that is hidden and \<open>show\<close> of one that is not
  hidden return the view-model as it was: the hidden set, the storage with its record
  of writes, and the document with its record of calls. So both are idempotent.
\<close>

theorem hide_show_noop:
  "(isHidden i vm \<longrightarrow> hide i vm = vm)
   \<and> (\<not> isHidden i vm \<longrightarrow> show_vm i vm = vm)
   \<and> hide i (hide i vm) = hide i vm
   \<and> show_vm i (show_vm i vm) = show_vm i vm"
proof -
  have "hide i (hide i vm) = hide i vm"
    by (cases "Set_has i (hidden vm)") (simp_all add: hide_def[of i "hide i vm"] hidden_hide)
  moreover have "show_vm i (show_vm i vm) = show_vm i vm"
    by (cases "Set_has i (hidden vm)") (simp_all add: show_vm_def[of i "show_vm i vm"] hidden_show_vm)
  ultimately show ?thesis
    by (simp add: isHidden_def hide_def show_vm_def)
qed

text \<open>
  Claim C6. After \<open>hide\<close> of an identifier and one \<open>show\<close> of it, the container of
  every entry with that identifier is displayed, and the identifier is not hidden.
\<close>

theorem show_after_hide_shows_all:
  "(\<forall>e \<in> set (entries vm). entryId e = i \<longrightarrow>
       container e \<notin> displayNone (document (show_vm i (hide i vm))))
   \<and> \<not> isHidden i (show_vm i (hide i vm))"
  by (auto simp: displayNone_show_vm displayNone_hide hidden_hide hidden_show_vm isHidden_def)

text \<open>
  Claim C3, as amended. If the identifier is not hidden, then \<open>hide\<close> followed by
  \<open>show\<close> leaves the hidden set and the entries as they were, leaves the containers of
  the entries with that identifier displayed (so the display is as before if they were
  displayed), and leaves under the key what \<open>saveState\<close> writes for the original
  hidden set (so a storage that held that is as before).
\<close>

theorem hide_then_show_restores:
  assumes "\<not> isHidden i vm"
  shows "hidden (show_vm i (hide i vm)) = hidden vm
     \<and> entries (show_vm i (hide i vm)) = entries vm
     \<and> displayNone (document (show_vm i (hide i vm)))
          = displayNone (document vm) - container ` {e \<in> set (entries vm). entryId e = i}
     \<and> ((\<forall>e \<in> set (entries vm). entryId e = i \<longrightarrow> container e \<notin> displayNone (document vm))
          \<longrightarrow> displayNone (document (show_vm i (hide i vm))) = displayNone (document vm))
     \<and> items (storageService (show_vm i (hide i vm)))
          = (items (storageService vm))((HIDDEN_ENTRIES_KEY, GLOBAL) := persisted_hidden (hidden vm))
     \<and> (storage_get HIDDEN_ENTRIES_KEY GLOBAL (storageService vm) = persisted_hidden (hidden vm)
          \<longrightarrow> items (storageService (show_vm i (hide i vm))) = items (storageService vm))"
proof -
  from assms have nh: "\<not> Set_has i (hidden vm)" by (simp add: isHidden_def)
  have h: "hidden (show_vm i (hide i vm)) = hidden vm"
    using nh by (simp add: hidden_show_vm hidden_hide Set_delete_add)
  have d: "displayNone (document (show_vm i (hide i vm)))
          = displayNone (document vm) - container ` {e \<in> set (entries vm). entryId e = i}"
    using nh by (auto simp: displayNone_show_vm displayNone_hide hidden_hide)
  have d2: "(\<forall>e \<in> set (entries vm). entryId e = i \<longrightarrow> container e \<notin> displayNone (document vm))
          \<longrightarrow> displayNone (document (show_vm i (hide i vm))) = displayNone (document vm)"
    unfolding d by auto
  have s: "items (storageService (show_vm i (hide i vm)))
          = (items (storageService vm))((HIDDEN_ENTRIES_KEY, GLOBAL) := persisted_hidden (hidden vm))"
    using nh by (simp add: items_show_vm items_hide hidden_hide Set_delete_add)
  have s2: "storage_get HIDDEN_ENTRIES_KEY GLOBAL (storageService vm) = persisted_hidden (hidden vm)
          \<longrightarrow> items (storageService (show_vm i (hide i vm))) = items (storageService vm)"
    unfolding s by (auto simp: storage_get_def)
  show ?thesis using h d d2 s s2 by simp
qed

text \<open>
  Claim C7. \<open>saveState\<close> with an empty hidden set removes the key, and with a hidden set
  that is not empty stores the JSON list of its members under the key; \<open>show\<close> of the
  last hidden identifier removes the key.
\<close>

theorem saveState_persists:
  "(hidden vm = [] \<longrightarrow>
      storage_get HIDDEN_ENTRIES_KEY GLOBAL (storageService (saveState vm)) = None
      \<and> writes (storageService (saveState vm))
          = writes (storageService vm) @ [Removed HIDDEN_ENTRIES_KEY GLOBAL])
   \<and> (hidden vm \<noteq> [] \<longrightarrow>
      storage_get HIDDEN_ENTRIES_KEY GLOBAL (storageService (saveState vm))
          = Some (JSON_stringify (hidden vm))
      \<and> writes (storageService (saveState vm))
          = writes (storageService vm) @ [Stored HIDDEN_ENTRIES_KEY (JSON_stringify (hidden vm)) GLOBAL])
   \<and> (isHidden i vm \<and> Set_delete i (hidden vm) = [] \<longrightarrow>
      storage_get HIDDEN_ENTRIES_KEY GLOBAL (storageService (show_vm i vm)) = None)"
  by (simp add: storage_get_def saveState_items saveState_writes persisted_hidden_def
        items_show_vm isHidden_def)


lemma isHidden_updateVisibility_id [simp]: "isHidden j (updateVisibility_id i vm) = isHidden j vm"
  by (simp add: isHidden_def)

lemma update_changed_hidden [simp]: "hidden (update_changed es changed vm) = hidden vm"
  by (induction es arbitrary: changed vm) simp_all

lemma mset_map_filter_disj:
  "(\<And>x. \<not> (P x \<and> Q x)) \<Longrightarrow>
   mset (map f (filter P xs)) + mset (map f (filter Q xs)) = mset (map f (filter (\<lambda>x. P x \<or> Q x) xs))"
  by (induction xs) auto

lemma set_Set_delete [simp]: "set (Set_delete i s) = set s - {i}"
  by (auto simp: Set_delete_def)

lemma set_Set_add [simp]: "set (Set_add i s) = insert i (set s)"
  by (auto simp: Set_add_def Set_has_def)

lemma updateVisibility_id_calls':
  "calls (document (updateVisibility_id i vm)) =
     calls (document vm) @ map (visibility_call (hidden vm)) (filter (\<lambda>e. entryId e = i) (entries vm))"
  unfolding updateVisibility_id_calls
  by (simp add: visibility_call_def isHidden_def cong: map_cong)

lemma update_changed_calls:
  "\<exists>cs. calls (document (update_changed es changed vm)) = calls (document vm) @ cs
      \<and> mset cs = mset (map (visibility_call (hidden vm))
                     (filter (\<lambda>e. entryId e \<in> set changed \<and> entryId e \<in> entryId ` set es) (entries vm)))"
proof (induction es arbitrary: changed vm)
  case Nil
  show ?case by simp
next
  case (Cons entry es)
  let ?i = "entryId entry"
  show ?case
  proof (cases "Set_has ?i changed")
    case False
    from Cons.IH[of changed vm] obtain cs where
      cs: "calls (document (update_changed es changed vm)) = calls (document vm) @ cs"
          "mset cs = mset (map (visibility_call (hidden vm))
                     (filter (\<lambda>e. entryId e \<in> set changed \<and> entryId e \<in> entryId ` set es) (entries vm)))"
      by blast
    have "filter (\<lambda>e. entryId e \<in> set changed \<and> entryId e \<in> entryId ` set (entry # es)) (entries vm)
        = filter (\<lambda>e. entryId e \<in> set changed \<and> entryId e \<in> entryId ` set es) (entries vm)"
      using False by (intro filter_cong) (auto simp: Set_has_def)
    with cs False show ?thesis by simp
  next
    case True
    let ?vm1 = "updateVisibility_id ?i vm"
    from Cons.IH[of "Set_delete ?i changed" ?vm1] obtain cs where
      cs: "calls (document (update_changed es (Set_delete ?i changed) ?vm1)) = calls (document ?vm1) @ cs"
          "mset cs = mset (map (visibility_call (hidden vm))
                     (filter (\<lambda>e. entryId e \<in> set (Set_delete ?i changed) \<and> entryId e \<in> entryId ` set es)
                        (entries vm)))"
      by auto
    let ?P = "\<lambda>e. entryId e = ?i"
    let ?Q = "\<lambda>e. entryId e \<in> set (Set_delete ?i changed) \<and> entryId e \<in> entryId ` set es"
    have eq: "filter (\<lambda>e. entryId e \<in> set changed \<and> entryId e \<in> entryId ` set (entry # es)) (entries vm)
        = filter (\<lambda>e. ?P e \<or> ?Q e) (entries vm)"
      using True by (intro filter_cong) (auto simp: Set_has_def)
    have "calls (document (update_changed (entry # es) changed vm))
        = calls (document vm) @ (map (visibility_call (hidden vm)) (filter ?P (entries vm)) @ cs)"
      using True cs(1) by (simp add: updateVisibility_id_calls')
    moreover have "mset (map (visibility_call (hidden vm)) (filter ?P (entries vm)) @ cs)
        = mset (map (visibility_call (hidden vm)) (filter (\<lambda>e. ?P e \<or> ?Q e) (entries vm)))"
      unfolding mset_append cs(2)
      by (rule mset_map_filter_disj) auto
    ultimately show ?thesis unfolding eq by blast
  qed
qed

lemma set_fold_Set_add:
  "set (fold (\<lambda>i changed. if P i then Set_add i changed else changed) xs acc)
     = set acc \<union> {i \<in> set xs. P i}"
  by (induction xs arbitrary: acc) auto

lemma set_changed_ids:
  "set (changed_ids old new) = (set old - set new) \<union> (set new - set old)"
  by (auto simp: changed_ids_def Let_def set_fold_Set_add Set_has_def)

lemma onDidStorageChange_hidden:
  "hidden (onDidStorageChange parse \<lparr>key = HIDDEN_ENTRIES_KEY, scope = GLOBAL\<rparr> vm)
     = restoreState parse (storageService vm) (Some [])"
  by (simp add: onDidStorageChange_def Let_def)

lemma onDidStorageChange_calls:
  "\<exists>cs. calls (document (onDidStorageChange parse \<lparr>key = HIDDEN_ENTRIES_KEY, scope = GLOBAL\<rparr> vm))
          = calls (document vm) @ cs
      \<and> mset cs = mset (map (visibility_call (restoreState parse (storageService vm) (Some [])))
                     (filter (\<lambda>e. Set_has (entryId e) (hidden vm)
                                  \<noteq> Set_has (entryId e) (restoreState parse (storageService vm) (Some [])))
                        (entries vm)))"
proof -
  let ?new = "restoreState parse (storageService vm) (Some [])"
  let ?vm1 = "vm\<lparr>hidden := ?new\<rparr>"
  let ?ch = "changed_ids (hidden vm) ?new"
  let ?F = "filter (\<lambda>e. Set_has (entryId e) (hidden vm) \<noteq> Set_has (entryId e) ?new) (entries vm)"
  have F: "filter (\<lambda>e. entryId e \<in> set ?ch \<and> entryId e \<in> entryId ` set (entries vm)) (entries vm) = ?F"
    by (intro filter_cong) (auto simp: set_changed_ids Set_has_def)
  show ?thesis
  proof (cases "?ch = []")
    case True
    then have "set ?ch = {}" by simp
    then have "?F = []"
      unfolding set_changed_ids by (auto simp: filter_empty_conv Set_has_def)
    with True show ?thesis by (simp add: onDidStorageChange_def Let_def)
  next
    case False
    from update_changed_calls[of "entries ?vm1" ?ch ?vm1] obtain cs where
      "calls (document (update_changed (entries ?vm1) ?ch ?vm1)) = calls (document ?vm1) @ cs"
      "mset cs = mset (map (visibility_call (hidden ?vm1))
           (filter (\<lambda>e. entryId e \<in> set ?ch \<and> entryId e \<in> entryId ` set (entries ?vm1)) (entries ?vm1)))"
      by blast
    with False F show ?thesis by (simp add: onDidStorageChange_def Let_def)
  qed
qed

text \<open>
  Claim C4. On the change event for the key, the view-model takes the hidden set from
  the storage and calls \<open>hide\<close> or \<open>show\<close> once on the container of each entry whose
  identifier is in one of the old and the new hidden set and not in the other, and on
  no other container. With \<open>A\<close> and \<open>B\<close> hidden and the list of \<open>B\<close> and \<open>C\<close> in the
  storage, the entries of \<open>A\<close> are shown, those of \<open>C\<close> hidden, and nothing else is
  called.
\<close>

theorem storage_change_reconciles:
  "(let vm' = onDidStorageChange parse \<lparr>key = HIDDEN_ENTRIES_KEY, scope = GLOBAL\<rparr> vm;
        nowHidden = restoreState parse (storageService vm) (Some [])
    in hidden vm' = nowHidden
       \<and> (\<exists>cs. calls (document vm') = calls (document vm) @ cs
             \<and> mset cs = mset (map (visibility_call nowHidden)
                            (filter (\<lambda>e. Set_has (entryId e) (hidden vm) \<noteq> Set_has (entryId e) nowHidden)
                               (entries vm)))))
   \<and> (hidden vm = [A, B] \<and> A \<noteq> B \<and> A \<noteq> C \<and> B \<noteq> C \<and> raw \<noteq> []
        \<and> storage_get HIDDEN_ENTRIES_KEY GLOBAL (storageService vm) = Some raw
        \<and> parse raw = Some [B, C]
      \<longrightarrow> (let vm' = onDidStorageChange parse \<lparr>key = HIDDEN_ENTRIES_KEY, scope = GLOBAL\<rparr> vm
           in hidden vm' = [B, C]
              \<and> (\<exists>cs. calls (document vm') = calls (document vm) @ cs
                    \<and> mset cs = mset (map (\<lambda>e. if entryId e = A then Show (container e) else Hide (container e))
                                   (filter (\<lambda>e. entryId e = A \<or> entryId e = C) (entries vm))))))"
proof -
  let ?ev = "\<lparr>key = HIDDEN_ENTRIES_KEY, scope = GLOBAL\<rparr>"
  let ?new = "restoreState parse (storageService vm) (Some [])"
  have gen: "hidden (onDidStorageChange parse ?ev vm) = ?new
       \<and> (\<exists>cs. calls (document (onDidStorageChange parse ?ev vm)) = calls (document vm) @ cs
             \<and> mset cs = mset (map (visibility_call ?new)
                            (filter (\<lambda>e. Set_has (entryId e) (hidden vm) \<noteq> Set_has (entryId e) ?new)
                               (entries vm))))"
    using onDidStorageChange_hidden[of parse vm] onDidStorageChange_calls[of parse vm] by simp
  have ex: "hidden (onDidStorageChange parse ?ev vm) = [B, C]
              \<and> (\<exists>cs. calls (document (onDidStorageChange parse ?ev vm)) = calls (document vm) @ cs
                    \<and> mset cs = mset (map (\<lambda>e. if entryId e = A then Show (container e) else Hide (container e))
                                   (filter (\<lambda>e. entryId e = A \<or> entryId e = C) (entries vm))))"
    if h: "hidden vm = [A, B]" "A \<noteq> B" "A \<noteq> C" "B \<noteq> C" "raw \<noteq> []"
          "storage_get HIDDEN_ENTRIES_KEY GLOBAL (storageService vm) = Some raw"
          "parse raw = Some [B, C]"
  proof -
    have new: "?new = [B, C]"
      using h by (simp add: restoreState_def new_Set_def Set_add_def Set_has_def)
    have m: "map (visibility_call [B, C])
            (filter (\<lambda>e. Set_has (entryId e) [A, B] \<noteq> Set_has (entryId e) [B, C]) (entries vm))
        = map (\<lambda>e. if entryId e = A then Show (container e) else Hide (container e))
            (filter (\<lambda>e. entryId e = A \<or> entryId e = C) (entries vm))"
    proof -
      have f: "filter (\<lambda>e. Set_has (entryId e) [A, B] \<noteq> Set_has (entryId e) [B, C]) (entries vm)
             = filter (\<lambda>e. entryId e = A \<or> entryId e = C) (entries vm)"
        using h(2-4) by (intro filter_cong) (auto simp: Set_has_def)
      show ?thesis unfolding f
        using h(2-4) by (intro map_cong) (auto simp: visibility_call_def Set_has_def)
    qed
    show ?thesis using gen unfolding new h(1) m .
  qed
  show ?thesis using gen ex by (simp add: Let_def)
qed



subsection \<open>The claims at the example states\<close>


lemma example_vm_simps [simp]:
  "entries example_vm = [entry_a1, entry_b, entry_c, entry_a2]"
  "hidden example_vm = []"
  "storageService example_vm = empty_storage"
  "document example_vm = empty_dom"
  "engine example_vm = stable_engine"
  by (simp_all add: example_vm_def)

lemma example_entry_simps [simp]:
  "entryId entry_a1 = ''a''" "container entry_a1 = 1"
  "entryId entry_b = ''b''" "container entry_b = 2"
  "entryId entry_c = ''c''" "container entry_c = 3"
  "entryId entry_a2 = ''a''" "container entry_a2 = 4"
  by (simp_all add: entry_a1_def entry_b_def entry_c_def entry_a2_def)

lemma containers_image:
  "container ` {e \<in> set es. entryId e = i} = set (map container (filter (\<lambda>e. entryId e = i) es))"
  by auto

lemma displayNone_hide_list:
  "displayNone (document (hide i vm)) =
     (if Set_has i (hidden vm) then displayNone (document vm)
      else displayNone (document vm) \<union> set (map container (filter (\<lambda>e. entryId e = i) (entries vm))))"
  unfolding displayNone_hide containers_image ..

lemma displayNone_show_vm_list:
  "displayNone (document (show_vm i vm)) =
     (if Set_has i (hidden vm)
      then displayNone (document vm) - set (map container (filter (\<lambda>e. entryId e = i) (entries vm)))
      else displayNone (document vm))"
  unfolding displayNone_show_vm containers_image ..

lemma hidden_a_state_simps [simp]:
  "entries hidden_a_state = [entry_a1, entry_b, entry_c, entry_a2]"
  "hidden hidden_a_state = [''a'']"
  "displayNone (document hidden_a_state) = {1, 4}"
  "items (storageService hidden_a_state) = [(HIDDEN_ENTRIES_KEY, GLOBAL) \<mapsto> JSON_stringify [''a'']]"
  by (auto simp: hidden_a_state_def hidden_hide displayNone_hide_list items_hide Set_has_def Set_add_def
        persisted_hidden_def empty_storage_def empty_dom_def)

theorem hide_show_noop_witness:
  "isHidden ''a'' hidden_a_state \<and> hide ''a'' hidden_a_state = hidden_a_state
   \<and> \<not> isHidden ''a'' example_vm \<and> show_vm ''a'' example_vm = example_vm"
  using hide_show_noop [of "''a''" hidden_a_state] hide_show_noop [of "''a''" example_vm]
  by (simp add: isHidden_def Set_has_def)

theorem show_after_hide_shows_all_witness:
  "entry_a1 \<in> set (entries example_vm) \<and> entryId entry_a1 = ''a''
   \<and> container entry_a1 \<notin> displayNone (document (show_vm ''a'' (hide ''a'' example_vm)))
   \<and> entry_a2 \<in> set (entries example_vm) \<and> entryId entry_a2 = ''a''
   \<and> container entry_a2 \<notin> displayNone (document (show_vm ''a'' (hide ''a'' example_vm)))"
  using show_after_hide_shows_all [of example_vm "''a''"]
  by simp

theorem hide_then_show_restores_witness:
  "\<not> isHidden ''a'' example_vm
   \<and> displayNone (document example_vm) = {}
   \<and> storage_get HIDDEN_ENTRIES_KEY GLOBAL (storageService example_vm) = persisted_hidden (hidden example_vm)
   \<and> hidden (show_vm ''a'' (hide ''a'' example_vm)) = hidden example_vm
   \<and> displayNone (document (show_vm ''a'' (hide ''a'' example_vm))) = displayNone (document example_vm)
   \<and> items (storageService (show_vm ''a'' (hide ''a'' example_vm))) = items (storageService example_vm)"
proof -
  have h1: "\<not> isHidden ''a'' example_vm" by (simp add: isHidden_def Set_has_def)
  have h2: "\<forall>e \<in> set (entries example_vm). entryId e = ''a'' \<longrightarrow> container e \<notin> displayNone (document example_vm)"
    by (simp add: empty_dom_def)
  have h3: "storage_get HIDDEN_ENTRIES_KEY GLOBAL (storageService example_vm) = persisted_hidden (hidden example_vm)"
    by (simp add: storage_get_def empty_storage_def persisted_hidden_def)
  have h4: "displayNone (document example_vm) = {}" by (simp add: empty_dom_def)
  show ?thesis using hide_then_show_restores [OF h1] h1 h2 h3 h4 by blast
qed

theorem hide_then_show_counterexample:
  "isHidden ''a'' hidden_a_state
   \<and> \<not> isHidden ''a'' (show_vm ''a'' (hide ''a'' hidden_a_state))
   \<and> container entry_a1 \<in> displayNone (document hidden_a_state)
   \<and> container entry_a1 \<notin> displayNone (document (show_vm ''a'' (hide ''a'' hidden_a_state)))
   \<and> storage_get HIDDEN_ENTRIES_KEY GLOBAL (storageService hidden_a_state) = Some (JSON_stringify [''a''])
   \<and> storage_get HIDDEN_ENTRIES_KEY GLOBAL (storageService (show_vm ''a'' (hide ''a'' hidden_a_state))) = None"
  by (simp add: isHidden_def Set_has_def hidden_show_vm hidden_hide displayNone_show_vm_list
        displayNone_hide_list storage_get_def items_show_vm items_hide Set_delete_def persisted_hidden_def)

theorem saveState_persists_witness:
  "hidden example_vm = [] \<and> JSON_stringify (hidden example_vm) = ''[]''
   \<and> storage_get HIDDEN_ENTRIES_KEY GLOBAL (storageService (saveState example_vm)) = None
   \<and> hidden hidden_a_state \<noteq> []
   \<and> storage_get HIDDEN_ENTRIES_KEY GLOBAL (storageService (saveState hidden_a_state))
       = Some [CHR ''['', CHR 0x22, CHR ''a'', CHR 0x22, CHR '']'']
   \<and> isHidden ''a'' hidden_a_state \<and> Set_delete ''a'' (hidden hidden_a_state) = []
   \<and> storage_get HIDDEN_ENTRIES_KEY GLOBAL (storageService (show_vm ''a'' hidden_a_state)) = None"
proof -
  have j: "JSON_stringify [''a''] = [CHR ''['', CHR 0x22, CHR ''a'', CHR 0x22, CHR '']'']"
    by (simp add: JSON_stringify_def QuoteJSONString_def QuoteJSONChar_def)
  show ?thesis
    using saveState_persists [of example_vm "''a''"] saveState_persists [of hidden_a_state "''a''"]
    by (simp add: isHidden_def Set_has_def Set_delete_def j) (simp add: JSON_stringify_def)
qed

lemma reconcile_state_simps [simp]:
  "entries reconcile_state = [entry_a1, entry_b, entry_c, entry_a2]"
  "hidden reconcile_state = [''a'', ''b'']"
  "storage_get HIDDEN_ENTRIES_KEY GLOBAL (storageService reconcile_state) = Some (JSON_stringify [''b'', ''c''])"
  "calls (document reconcile_state) = []"
  by (simp_all add: reconcile_state_def storage_get_def)

theorem storage_change_reconciles_witness:
  "hidden reconcile_state = [''a'', ''b'']
   \<and> storage_get HIDDEN_ENTRIES_KEY GLOBAL (storageService reconcile_state) = Some (JSON_stringify [''b'', ''c''])
   \<and> parse_b_c (JSON_stringify [''b'', ''c'']) = Some [''b'', ''c'']
   \<and> hidden (onDidStorageChange parse_b_c \<lparr>key = HIDDEN_ENTRIES_KEY, scope = GLOBAL\<rparr> reconcile_state)
        = [''b'', ''c'']
   \<and> mset (calls (document
         (onDidStorageChange parse_b_c \<lparr>key = HIDDEN_ENTRIES_KEY, scope = GLOBAL\<rparr> reconcile_state)))
        = {#Show 1, Hide 3, Show 4#}"
proof -
  let ?vm' = "onDidStorageChange parse_b_c \<lparr>key = HIDDEN_ENTRIES_KEY, scope = GLOBAL\<rparr> reconcile_state"
  have ne: "JSON_stringify [''b'', ''c''] \<noteq> []" by (simp add: JSON_stringify_def)
  have p: "parse_b_c (JSON_stringify [''b'', ''c'']) = Some [''b'', ''c'']" by (simp add: parse_b_c_def)
  have hyps: "hidden reconcile_state = [''a'', ''b''] \<and> ''a'' \<noteq> ''b'' \<and> ''a'' \<noteq> ''c'' \<and> ''b'' \<noteq> ''c''
      \<and> JSON_stringify [''b'', ''c''] \<noteq> []
      \<and> storage_get HIDDEN_ENTRIES_KEY GLOBAL (storageService reconcile_state) = Some (JSON_stringify [''b'', ''c''])
      \<and> parse_b_c (JSON_stringify [''b'', ''c'']) = Some [''b'', ''c'']"
    using ne p by simp
  from storage_change_reconciles [where parse = parse_b_c and vm = reconcile_state
        and A = "''a''" and B = "''b''" and C = "''c''" and raw = "JSON_stringify [''b'', ''c'']"]
  have "hidden ?vm' = [''b'', ''c'']
      \<and> (\<exists>cs. calls (document ?vm') = calls (document reconcile_state) @ cs
            \<and> mset cs = mset (map (\<lambda>e. if entryId e = ''a'' then Show (container e) else Hide (container e))
                     (filter (\<lambda>e. entryId e = ''a'' \<or> entryId e = ''c'') (entries reconcile_state))))"
    using hyps unfolding Let_def by blast
  then have "hidden ?vm' = [''b'', ''c'']" and "mset (calls (document ?vm')) = {#Show 1, Hide 3, Show 4#}"
    by auto
  with hyps show ?thesis by simp
qed




section \<open>Properties of the context menu\<close>

lemma toggle_ids_append [simp]: "toggle_ids (xs @ ys) = toggle_ids xs @ toggle_ids ys"
  by (simp add: toggle_ids_def)

lemma toggle_ids_toggle_actions:
  "toggle_ids (toggle_actions es [] vm) = map entryId es"
  by (induction es) (simp_all add: toggle_ids_def Set_has_def)

lemma toggle_ids_getContextMenuActions:
  "toggle_ids (getContextMenuActions chain vm) = map entryId (entries vm)"
proof -
  have "toggle_ids (case entry_under_mouse chain vm of
          Some statusEntryUnderMouse \<Rightarrow> [HideStatusbarEntryAction (entryId statusEntryUnderMouse), Separator]
        | None \<Rightarrow> []) = []"
    by (cases "entry_under_mouse chain vm") (simp_all add: toggle_ids_def)
  moreover have "toggle_ids [Separator, ToggleStatusbarVisibilityAction ''Hide Status Bar''] = []"
    by (simp add: toggle_ids_def)
  ultimately show ?thesis
    by (simp add: getContextMenuActions_def new_Set_def toggle_ids_toggle_actions)
qed

text \<open>
  Claim C2 asks for one toggle action per distinct identifier. The loop of
  \<open>getContextMenuActions\<close> never adds to \<open>handledEntries\<close>, so it makes one toggle action
  per entry: with two entries of the identifier \<open>a\<close> the menu has two toggle actions for
  \<open>a\<close>.
\<close>

theorem context_menu_repeats_shared_id:
  "toggle_ids (getContextMenuActions [] example_vm) = [''a'', ''b'', ''c'', ''a'']
   \<and> length (filter (\<lambda>i. i = ''a'') (toggle_ids (getContextMenuActions [] example_vm))) = 2"
  by (simp add: toggle_ids_getContextMenuActions)

section \<open>Properties of the marker navigation widget\<close>

lemma longest_fold_lines [simp]:
  "lines (fold (\<lambda>line v. v\<lparr>longestLineLength := max (length line) (longestLineLength v)\<rparr>) ls w) = lines w"
  by (induction ls arbitrary: w) simp_all

lemma related_fold_lines [simp]:
  "lines (fold (\<lambda>related v. v\<lparr>lines := Suc (lines v)\<rparr>) rs w) = lines w + length rs"
  by (induction rs arbitrary: w) simp_all

lemma lines_MessageWidget_update:
  "lines (MessageWidget_update marker w) = numberOfMessageLines marker"
  by (simp add: MessageWidget_update_def numberOfMessageLines_def isNonEmptyArray_def Let_def
        split: option.split)

lemma split_lines_no_break:
  "\<forall>c \<in> set s. c \<noteq> CHR 0x0D \<and> c \<noteq> CHR 0x0A \<Longrightarrow> split_lines s = [s]"
  by (induction s rule: split_lines.induct) auto

lemma computeRequiredHeight_updateMarker:
  "computeRequiredHeight (updateMarker marker w) = 3 + min 17 (numberOfMessageLines marker)"
  by (simp add: computeRequiredHeight_def getHeightInLines_def updateMarker_def lines_MessageWidget_update)

lemma showAtMarker_height:
  "\<exists>w' pos. showAtMarker editor marker markerIdx markerCount w = Inr w'
      \<and> computeRequiredHeight w' = 3 + min 17 (numberOfMessageLines marker)
      \<and> shownAt w' = Some (pos, int (3 + min 17 (numberOfMessageLines marker)))"
  by (simp add: showAtMarker_def Let_def PeekViewWidget_show_def computeRequiredHeight_def
        getHeightInLines_def lines_MessageWidget_update)

text \<open>
  Claim C5. After the widget took a marker (\<open>updateMarker\<close>, \<open>showAtMarker\<close>), its required
  height is 3 plus the smaller of 17 and the number of message lines: the lines of the
  message, one line for the separator if there is related information, one line for
  each related information. \<open>showAtMarker\<close> shows the overlay with that height. A
  message without a line break and without related information gives 4, a message of
  20 lines gives 20.
\<close>

theorem required_height:
  "computeRequiredHeight (updateMarker marker w) = 3 + min 17 (numberOfMessageLines marker)
   \<and> (\<exists>w' pos. showAtMarker editor marker markerIdx markerCount w = Inr w'
         \<and> computeRequiredHeight w' = 3 + min 17 (numberOfMessageLines marker)
         \<and> shownAt w' = Some (pos, int (3 + min 17 (numberOfMessageLines marker))))
   \<and> ((\<forall>c \<in> set (message marker). c \<noteq> CHR 0x0D \<and> c \<noteq> CHR 0x0A)
        \<and> \<not> isNonEmptyArray (relatedInformation marker)
       \<longrightarrow> computeRequiredHeight (updateMarker marker w) = 4)
   \<and> (length (split_lines (message marker)) = 20
       \<longrightarrow> computeRequiredHeight (updateMarker marker w) = 20)"
proof -
  have one: "computeRequiredHeight (updateMarker marker w) = 4"
    if "\<forall>c \<in> set (message marker). c \<noteq> CHR 0x0D \<and> c \<noteq> CHR 0x0A"
       "\<not> isNonEmptyArray (relatedInformation marker)"
  proof -
    have "numberOfMessageLines marker = 1"
      using that by (auto simp: numberOfMessageLines_def split_lines_no_break isNonEmptyArray_def
          split: option.splits)
    then show ?thesis by (simp add: computeRequiredHeight_updateMarker)
  qed
  have twenty: "computeRequiredHeight (updateMarker marker w) = 20"
    if "length (split_lines (message marker)) = 20"
  proof -
    have "20 \<le> numberOfMessageLines marker"
      using that by (simp add: numberOfMessageLines_def)
    then show ?thesis by (simp add: computeRequiredHeight_updateMarker)
  qed
  show ?thesis
    using computeRequiredHeight_updateMarker[of marker w]
      showAtMarker_height[of editor marker markerIdx markerCount w] one twenty
    by blast
qed

theorem required_height_witness:
  "computeRequiredHeight (updateMarker one_line_marker new_MarkerNavigationWidget) = 4
   \<and> length (split_lines (message twenty_line_marker)) = 20
   \<and> computeRequiredHeight (updateMarker twenty_line_marker new_MarkerNavigationWidget) = 20"
proof -
  have a: "\<forall>c \<in> set (message one_line_marker). c \<noteq> CHR 0x0D \<and> c \<noteq> CHR 0x0A"
    by (simp add: one_line_marker_def)
  have b: "\<not> isNonEmptyArray (relatedInformation one_line_marker)"
    by (simp add: one_line_marker_def isNonEmptyArray_def)
  have c: "length (split_lines (message twenty_line_marker)) = 20"
    by (simp add: twenty_line_marker_def)
  from required_height[of one_line_marker new_MarkerNavigationWidget] a b
  have "computeRequiredHeight (updateMarker one_line_marker new_MarkerNavigationWidget) = 4"
    by blast
  moreover from required_height[of twenty_line_marker new_MarkerNavigationWidget] c
  have "computeRequiredHeight (updateMarker twenty_line_marker new_MarkerNavigationWidget) = 20"
    by blast
  ultimately show ?thesis using c by simp
qed

text \<open>
  Claim C9. \<open>show\<close> of the marker widget throws the error "call showAtMarker" for every
  position, height and widget state and so shows nothing; \<open>showAtMarker\<close> returns
  normally with the overlay shown at the required height, and \<open>updateMarker\<close> leaves
  what is shown as it is.
\<close>

theorem show_throws:
  "MarkerNavigationWidget_show wh heightInLines w = Inl (ErrorObject ''call showAtMarker'')
   \<and> (\<exists>w' pos. showAtMarker editor marker markerIdx markerCount w = Inr w'
         \<and> shownAt w' = Some (pos, int (computeRequiredHeight w')))
   \<and> shownAt (updateMarker marker w) = shownAt w"
  using showAtMarker_height[of editor marker markerIdx markerCount w]
  by (auto simp: MarkerNavigationWidget_show_def updateMarker_def)




section \<open>Properties of the part\<close>

lemma addEntry_pending:
  "element p = None \<Longrightarrow>
   addEntry entry i n a pr p =
     (PendingAccessor (nextRef p),
      p\<lparr>pendingObjects := (pendingObjects p)(nextRef p :=
            \<lparr>pendingId = i, pendingName = n, pendingEntry = entry,
             pendingAlignment = a, pendingPriority = pr, accessor = None\<rparr>),
        nextRef := Suc (nextRef p),
        pendingEntries := pendingEntries p @ [nextRef p]\<rparr>)"
  by (simp add: addEntry_def doAddPendingEntry_def Let_def)

lemma dispose_pending:
  "accessor (pendingObjects p r) = None \<Longrightarrow>
   dispose_accessor (PendingAccessor r) p =
     Some (p\<lparr>pendingEntries := filter (\<lambda>entry. entry \<noteq> r) (pendingEntries p)\<rparr>)"
  by (subst dispose_accessor.simps) simp

lemma on_document_frame [simp]:
  "element (on_document f p) = element p"
  "pendingEntries (on_document f p) = pendingEntries p"
  "pendingObjects (on_document f p) = pendingObjects p"
  "nextRef (on_document f p) = nextRef p"
  "nextElement (on_document f p) = nextElement p"
  "rendered (on_document f p) = rendered p"
  "entries (viewModel (on_document f p)) = entries (viewModel p)"
  "hidden (viewModel (on_document f p)) = hidden (viewModel p)"
  by (simp_all add: on_document_def)

lemma on_document_pendingEntries:
  "on_document f (p\<lparr>pendingEntries := q\<rparr>) = (on_document f p)\<lparr>pendingEntries := q\<rparr>"
  by (simp add: on_document_def)

lemma doCreateStatusItem_frame:
  "element (snd (doCreateStatusItem i n a pr cs p)) = element p"
  "pendingEntries (snd (doCreateStatusItem i n a pr cs p)) = pendingEntries p"
  "pendingObjects (snd (doCreateStatusItem i n a pr cs p)) = pendingObjects p"
  "nextRef (snd (doCreateStatusItem i n a pr cs p)) = nextRef p"
  "entries (viewModel (snd (doCreateStatusItem i n a pr cs p))) = entries (viewModel p)"
  "fst (doCreateStatusItem i n a pr cs p) = nextElement p"
  by (simp_all add: doCreateStatusItem_def Let_def)

lemma doCreateStatusItem_pendingEntries:
  "doCreateStatusItem i n a pr cs (p\<lparr>pendingEntries := q\<rparr>) =
     (fst (doCreateStatusItem i n a pr cs p), (snd (doCreateStatusItem i n a pr cs p))\<lparr>pendingEntries := q\<rparr>)"
  by (simp add: doCreateStatusItem_def Let_def on_document_def)

lemma doAddEntry_frame:
  "element (snd (doAddEntry entry i n a pr p)) = element p"
  "pendingEntries (snd (doAddEntry entry i n a pr p)) = pendingEntries p"
  "pendingObjects (snd (doAddEntry entry i n a pr p)) = pendingObjects p"
  "nextRef (snd (doAddEntry entry i n a pr p)) = nextRef p"
  by (simp_all add: doAddEntry_def Let_def split_beta doCreateStatusItem_frame)

lemma doAddEntry_entries:
  "image_mset entryId (mset (entries (viewModel (snd (doAddEntry entry i n a pr p)))))
     = add_mset i (image_mset entryId (mset (entries (viewModel p))))"
proof -
  have "mset (entries (viewModel (snd (doAddEntry entry i n a pr p))))
      = add_mset \<lparr>entryId = i, entryName = n, alignment = a, priority = pr,
                  container = fst (doCreateStatusItem i n a pr
                     (''statusbar-entry'' # (if showBeak entry then [''has-beak''] else [])) p)\<rparr>
          (mset (entries (viewModel p)))"
    by (simp add: doAddEntry_def Let_def split_beta entries_add Array_sort_compareEntries
          doCreateStatusItem_frame)
  then show ?thesis by simp
qed

lemma doAddEntry_pendingEntries:
  "doAddEntry entry i n a pr (p\<lparr>pendingEntries := q\<rparr>) =
     (fst (doAddEntry entry i n a pr p), (snd (doAddEntry entry i n a pr p))\<lparr>pendingEntries := q\<rparr>)"
  by (simp add: doAddEntry_def Let_def split_beta doCreateStatusItem_pendingEntries)

lemma fill_pending_realized:
  "element p \<noteq> None \<Longrightarrow>
   fill_pending r p =
     (let pending = pendingObjects p r;
          res = doAddEntry (pendingEntry pending) (pendingId pending) (pendingName pending)
                  (pendingAlignment pending) (pendingPriority pending) p
      in (snd res)\<lparr>pendingObjects := (pendingObjects p)(r := pending\<lparr>accessor := Some (fst res)\<rparr>)\<rparr>)"
  by (auto simp: fill_pending_def addEntry_def Let_def split_beta doAddEntry_frame)

lemma fill_pending_frame:
  assumes "element p \<noteq> None"
  shows "element (fill_pending r p) = element p"
    and "pendingEntries (fill_pending r p) = pendingEntries p"
    and "nextRef (fill_pending r p) = nextRef p"
    and "x \<noteq> r \<Longrightarrow> pendingObjects (fill_pending r p) x = pendingObjects p x"
    and "accessor (pendingObjects (fill_pending r p) r) \<noteq> None"
    and "pendingId (pendingObjects (fill_pending r p) x) = pendingId (pendingObjects p x)"
    and "image_mset entryId (mset (entries (viewModel (fill_pending r p))))
           = add_mset (pendingId (pendingObjects p r)) (image_mset entryId (mset (entries (viewModel p))))"
  using assms
  by (auto simp: fill_pending_realized Let_def doAddEntry_frame doAddEntry_entries)

lemma fill_pending_pendingEntries:
  "element p \<noteq> None \<Longrightarrow>
   fill_pending r (p\<lparr>pendingEntries := q\<rparr>) = (fill_pending r p)\<lparr>pendingEntries := q\<rparr>"
  by (auto simp: fill_pending_realized Let_def doAddEntry_pendingEntries)

lemma fill_pending_entries_total:
  "element p \<noteq> None \<Longrightarrow> pendingEntries p = q \<Longrightarrow>
   fill_pending_entries p = Some (fill_all q (p\<lparr>pendingEntries := []\<rparr>))"
proof (induction q arbitrary: p)
  case Nil
  then have "p\<lparr>pendingEntries := []\<rparr> = p" by simp
  with Nil show ?case by (subst fill_pending_entries.simps) simp
next
  case (Cons r rest)
  let ?p1 = "fill_pending r (p\<lparr>pendingEntries := rest\<rparr>)"
  have e: "element ?p1 \<noteq> None" using Cons.prems(1) by (simp add: fill_pending_frame)
  have q: "pendingEntries ?p1 = rest" using Cons.prems(1) by (simp add: fill_pending_frame)
  have "fill_pending_entries p = fill_pending_entries ?p1"
    using Cons.prems(2) by (subst fill_pending_entries.simps) simp
  also have "\<dots> = Some (fill_all rest (?p1\<lparr>pendingEntries := []\<rparr>))"
    by (rule Cons.IH[OF e q])
  also have "?p1\<lparr>pendingEntries := []\<rparr> = fill_pending r (p\<lparr>pendingEntries := []\<rparr>)"
    using Cons.prems(1) by (simp add: fill_pending_pendingEntries)
  finally show ?case by simp
qed

lemma fill_all_frame:
  "element p \<noteq> None \<Longrightarrow> element (fill_all q p) = element p"
  "element p \<noteq> None \<Longrightarrow> pendingEntries (fill_all q p) = pendingEntries p"
  by (induction q arbitrary: p) (simp_all add: fill_pending_frame)

lemma fill_all_untouched:
  "element p \<noteq> None \<Longrightarrow> x \<notin> set q \<Longrightarrow> pendingObjects (fill_all q p) x = pendingObjects p x"
  by (induction q arbitrary: p) (simp_all add: fill_pending_frame)

lemma fill_all_pendingId:
  "element p \<noteq> None \<Longrightarrow> pendingId (pendingObjects (fill_all q p) x) = pendingId (pendingObjects p x)"
  by (induction q arbitrary: p) (simp_all add: fill_pending_frame)

lemma fill_all_keeps_accessor:
  "element p \<noteq> None \<Longrightarrow> accessor (pendingObjects p x) \<noteq> None \<Longrightarrow>
   accessor (pendingObjects (fill_all q p) x) \<noteq> None"
proof (induction q arbitrary: p)
  case Nil
  then show ?case by simp
next
  case (Cons r rest)
  have "accessor (pendingObjects (fill_pending r p) x) \<noteq> None"
    using Cons.prems by (cases "x = r") (simp_all add: fill_pending_frame)
  with Cons.IH[of "fill_pending r p"] Cons.prems(1) show ?case
    by (simp add: fill_pending_frame)
qed

lemma fill_all_realizes:
  "element p \<noteq> None \<Longrightarrow> x \<in> set q \<Longrightarrow> accessor (pendingObjects (fill_all q p) x) \<noteq> None"
proof (induction q arbitrary: p)
  case Nil
  then show ?case by simp
next
  case (Cons r rest)
  show ?case
  proof (cases "x = r")
    case True
    have "accessor (pendingObjects (fill_pending r p) x) \<noteq> None"
      using Cons.prems(1) True by (simp add: fill_pending_frame)
    then show ?thesis
      using Cons.prems(1) by (simp add: fill_all_keeps_accessor fill_pending_frame)
  next
    case False
    with Cons.prems have "x \<in> set rest" by simp
    with Cons.IH[of "fill_pending r p"] Cons.prems(1) show ?thesis
      by (simp add: fill_pending_frame)
  qed
qed

lemma fill_all_entries:
  "element p \<noteq> None \<Longrightarrow>
   image_mset entryId (mset (entries (viewModel (fill_all q p))))
     = image_mset (\<lambda>r. pendingId (pendingObjects p r)) (mset q)
       + image_mset entryId (mset (entries (viewModel p)))"
proof (induction q arbitrary: p)
  case Nil
  then show ?case by simp
next
  case (Cons r rest)
  have e: "element (fill_pending r p) \<noteq> None"
    using Cons.prems by (simp add: fill_pending_frame)
  have "image_mset entryId (mset (entries (viewModel (fill_all (r # rest) p))))
      = image_mset (\<lambda>x. pendingId (pendingObjects (fill_pending r p) x)) (mset rest)
        + image_mset entryId (mset (entries (viewModel (fill_pending r p))))"
    using Cons.IH[OF e] by simp
  also have "image_mset (\<lambda>x. pendingId (pendingObjects (fill_pending r p) x)) (mset rest)
      = image_mset (\<lambda>x. pendingId (pendingObjects p x)) (mset rest)"
    using fill_pending_frame(6)[OF Cons.prems] by simp
  also have "image_mset entryId (mset (entries (viewModel (fill_pending r p))))
      = add_mset (pendingId (pendingObjects p r)) (image_mset entryId (mset (entries (viewModel p))))"
    by (rule fill_pending_frame(7)[OF Cons.prems])
  finally show ?case by simp
qed

lemma create_registry_items_frame:
  "element (create_registry_items ds p) = element p"
  "pendingEntries (create_registry_items ds p) = pendingEntries p"
  "pendingObjects (create_registry_items ds p) = pendingObjects p"
  by (induction ds arbitrary: p) (simp_all add: split_beta doCreateStatusItem_frame)

lemma add_entry_ids:
  "image_mset entryId (mset (entries (add e vm))) = add_mset (entryId e) (image_mset entryId (mset (entries vm)))"
  by (simp add: entries_add Array_sort_compareEntries)

lemma create_registry_items_entries:
  "image_mset entryId (mset (entries (viewModel (create_registry_items ds p))))
     = image_mset itemId (mset ds) + image_mset entryId (mset (entries (viewModel p)))"
  by (induction ds arbitrary: p) (simp_all add: split_beta add_entry_ids doCreateStatusItem_frame)

lemma createContentArea_result:
  "createContentArea registry_items parent p =
     Some (fill_all (pendingEntries p)
            ((create_registry_items registry_items (p\<lparr>element := Some parent\<rparr>))\<lparr>pendingEntries := []\<rparr>))"
  unfolding createContentArea_def createInitialStatusbarEntries_def
  by (rule fill_pending_entries_total) (simp_all add: create_registry_items_frame)


text \<open>
  Claim C8. An entry added while the part has no container goes to the end of the
  pending queue, with no accessor of its own yet. Disposing of the accessor that the
  caller got, while that is so, succeeds and takes the entry out of the queue. Creating
  the container then ends, empties the queue and realizes what was left in it: the
  entries of the view-model are those of before, one per registry item and one per
  pending entry left in the queue; each of these got its accessor, the disposed one
  never gets one.
\<close>

theorem disposed_pending_entry_never_realized:
  "(element p = None \<longrightarrow>
      (case addEntry entry i n a pr p of (acc, p1) \<Rightarrow>
         acc = PendingAccessor (nextRef p) \<and> element p1 = None
         \<and> accessor (pendingObjects p1 (nextRef p)) = None
         \<and> pendingEntries p1 = pendingEntries p @ [nextRef p]))
   \<and> (element p = None \<and> accessor (pendingObjects p r) = None \<longrightarrow>
      (\<exists>p'. dispose_accessor (PendingAccessor r) p = Some p'
         \<and> pendingEntries p' = filter (\<lambda>x. x \<noteq> r) (pendingEntries p)
         \<and> r \<notin> set (pendingEntries p')
         \<and> (\<exists>p''. createContentArea registry_items parent p' = Some p''
              \<and> pendingEntries p'' = []
              \<and> accessor (pendingObjects p'' r) = None
              \<and> (\<forall>x \<in> set (pendingEntries p'). accessor (pendingObjects p'' x) \<noteq> None)
              \<and> image_mset entryId (mset (entries (viewModel p'')))
                  = image_mset itemId (mset registry_items)
                    + image_mset (\<lambda>x. pendingId (pendingObjects p x)) (mset (pendingEntries p'))
                    + image_mset entryId (mset (entries (viewModel p))))))"
proof (intro conjI impI)
  assume "element p = None"
  then show "case addEntry entry i n a pr p of (acc, p1) \<Rightarrow>
         acc = PendingAccessor (nextRef p) \<and> element p1 = None
         \<and> accessor (pendingObjects p1 (nextRef p)) = None
         \<and> pendingEntries p1 = pendingEntries p @ [nextRef p]"
    by (simp add: addEntry_pending)
next
  assume a: "element p = None \<and> accessor (pendingObjects p r) = None"
  let ?q = "filter (\<lambda>x. x \<noteq> r) (pendingEntries p)"
  let ?p' = "p\<lparr>pendingEntries := ?q\<rparr>"
  let ?p0 = "(create_registry_items registry_items (?p'\<lparr>element := Some parent\<rparr>))\<lparr>pendingEntries := []\<rparr>"
  let ?p'' = "fill_all ?q ?p0"
  have d: "dispose_accessor (PendingAccessor r) p = Some ?p'"
    using a by (simp add: dispose_pending)
  have c: "createContentArea registry_items parent ?p' = Some ?p''"
    by (simp add: createContentArea_result)
  have e0: "element ?p0 \<noteq> None" by (simp add: create_registry_items_frame)
  have o0: "pendingObjects ?p0 = pendingObjects p" by (simp add: create_registry_items_frame)
  have q'': "pendingEntries ?p'' = []"
    using fill_all_frame(2)[OF e0, of ?q] by simp
  have r'': "accessor (pendingObjects ?p'' r) = None"
    using fill_all_untouched[OF e0, of r ?q] a by (simp add: o0)
  have x'': "\<forall>x \<in> set (pendingEntries ?p'). accessor (pendingObjects ?p'' x) \<noteq> None"
    using fill_all_realizes[OF e0, of _ ?q] by simp
  have "image_mset entryId (mset (entries (viewModel ?p0)))
      = image_mset itemId (mset registry_items) + image_mset entryId (mset (entries (viewModel p)))"
    using create_registry_items_entries[of registry_items "?p'\<lparr>element := Some parent\<rparr>"] by simp
  then have m'': "image_mset entryId (mset (entries (viewModel ?p'')))
      = image_mset itemId (mset registry_items)
        + image_mset (\<lambda>x. pendingId (pendingObjects p x)) (mset (pendingEntries ?p'))
        + image_mset entryId (mset (entries (viewModel p)))"
    using fill_all_entries[OF e0, of ?q] by (simp add: o0)
  have "pendingEntries ?p' = ?q \<and> r \<notin> set (pendingEntries ?p')" by simp
  with d c q'' r'' x'' m''
  show "\<exists>p'. dispose_accessor (PendingAccessor r) p = Some p'
         \<and> pendingEntries p' = filter (\<lambda>x. x \<noteq> r) (pendingEntries p)
         \<and> r \<notin> set (pendingEntries p')
         \<and> (\<exists>p''. createContentArea registry_items parent p' = Some p''
              \<and> pendingEntries p'' = []
              \<and> accessor (pendingObjects p'' r) = None
              \<and> (\<forall>x \<in> set (pendingEntries p'). accessor (pendingObjects p'' x) \<noteq> None)
              \<and> image_mset entryId (mset (entries (viewModel p'')))
                  = image_mset itemId (mset registry_items)
                    + image_mset (\<lambda>x. pendingId (pendingObjects p x)) (mset (pendingEntries p'))
                    + image_mset entryId (mset (entries (viewModel p))))"
    by blast
qed

lemma example_part_simps:
  "element example_part = None"
  "pendingEntries example_part = [0]"
  "accessor (pendingObjects example_part 0) = None"
  "entries (viewModel example_part) = []"
  by (simp_all add: example_part_def new_StatusbarPart_def addEntry_pending new_StatusbarViewModel_def)

theorem disposed_pending_entry_never_realized_witness:
  "element example_part = None \<and> pendingEntries example_part = [0]
   \<and> accessor (pendingObjects example_part 0) = None
   \<and> (\<exists>p' p''. dispose_accessor (PendingAccessor 0) example_part = Some p'
         \<and> pendingEntries p' = []
         \<and> createContentArea example_registry 7 p' = Some p''
         \<and> accessor (pendingObjects p'' 0) = None
         \<and> image_mset entryId (mset (entries (viewModel p''))) = {#''status.editor.mode''#})"
proof -
  have h: "element example_part = None \<and> accessor (pendingObjects example_part 0) = None"
    by (simp add: example_part_simps)
  from disposed_pending_entry_never_realized
         [where p = example_part and r = 0 and registry_items = example_registry and parent = 7] h
  obtain p' p'' where
    "dispose_accessor (PendingAccessor 0) example_part = Some p'"
    "pendingEntries p' = filter (\<lambda>x. x \<noteq> 0) (pendingEntries example_part)"
    "createContentArea example_registry 7 p' = Some p''"
    "accessor (pendingObjects p'' 0) = None"
    "image_mset entryId (mset (entries (viewModel p'')))
       = image_mset itemId (mset example_registry)
         + image_mset (\<lambda>x. pendingId (pendingObjects example_part x)) (mset (pendingEntries p'))
         + image_mset entryId (mset (entries (viewModel example_part)))"
    by blast
  then show ?thesis
    using h by (auto simp: example_part_simps example_registry_def)
qed


end
